theory Spec2Isabelle
  imports Complex_Main "HOL-Library.AList"
begin

section \<open>Shared data model\<close>

text \<open>
  Python exceptions are values. \<open>ValueError\<close> is what \<open>load_index\<close> raises for an unknown
  index name, \<open>IOFailure\<close> stands for the \<open>OSError\<close>/\<open>UnicodeDecodeError\<close> of a
  failed \<open>stat\<close> or \<open>read_text\<close>, \<open>KeyError\<close> for a failed dictionary subscript, and
  \<open>ExternalFailure\<close> for anything raised by a collaborator outside these files (the
  embedder, the configuration loader, the constructors of store, graph and BM25 index).
\<close>

datatype error =
    ValueError string
  | IOFailure string
  | KeyError string
  | ZeroDivisionError
  | ExternalFailure string

text \<open>
  Metadata dictionaries map string keys to Python values: \<open>None\<close>, a string, an \<open>int\<close>
  (\<open>MInt\<close>) or a \<open>float\<close> (\<open>MNum\<close>, idealised as a rational).
\<close>

datatype mval = MNone | MStr string | MInt int | MNum rat

text \<open>
  \<open>x == v\<close> for a float \<open>x\<close> and the result \<open>v\<close> of \<open>dict.get\<close>: Python compares numbers
  by value (\<open>1.0 == 1\<close>), and a float equals neither \<open>None\<close> nor a string.
\<close>

fun float_eq :: "rat \<Rightarrow> mval option \<Rightarrow> bool" where
  "float_eq x (Some (MNum y)) = (x = y)"
| "float_eq x (Some (MInt i)) = (x = of_int i)"
| "float_eq x (Some (MStr s)) = False"
| "float_eq x (Some MNone) = False"
| "float_eq x None = False"

type_synonym metadata = "string \<rightharpoonup> mval"

record SourceConfig =
  source_path :: string
  source_glob :: string
  source_type :: "string option"
  source_exclude :: "string list"
  exclusion_template :: "string option"

text \<open>
  \<open>GundogConfig\<close> with the nested sections of the source flattened:
  \<open>config.chunking.enabled\<close> is \<open>chunking_enabled\<close>, \<open>config.graph.max_expand_depth\<close>
  is \<open>max_expand_depth\<close>, and so on.
\<close>

record GundogConfig =
  sources :: "SourceConfig list"
  embedding_model :: string
  storage_backend :: string
  storage_path :: string
  chunking_enabled :: bool
  max_tokens :: int
  overlap_tokens :: int
  hybrid_enabled :: bool
  vector_weight :: rat
  bm25_weight :: rat
  similarity_threshold :: rat
  expand_threshold :: rat
  max_expand_depth :: int

section \<open>Index manager (\<open>_daemon.py\<close>)\<close>

text \<open>
  What \<open>IndexManager.load_index\<close> reads from outside the class: the registry lookup of
  \<open>DaemonConfig.get_index_path\<close>, the existence test of the project's configuration file,
  \<open>GundogConfig.load\<close>, the minimal fallback configuration for a storage path, and the
  constructor \<open>QueryEngine(config)\<close>, which loads store, graph and BM25 index from disk and
  may raise. The engine is an abstract value of type \<open>'e\<close>.
\<close>

record 'e DaemonWorld =
  get_index_path :: "string \<Rightarrow> string option"
  path_exists :: "string \<Rightarrow> bool"
  GundogConfig_load :: "string \<Rightarrow> error + GundogConfig"
  GundogConfig_minimal :: "string \<Rightarrow> GundogConfig"
  QueryEngine_new :: "GundogConfig \<Rightarrow> error + 'e"

record 'e IndexManager =
  engine :: "'e option"
  active_index :: "string option"

definition IndexManager_init :: "'e IndexManager" where
  "IndexManager_init = \<lparr>engine = None, active_index = None\<rparr>"

text \<open>
  \<open>pathlib\<close> paths, POSIX flavour: a path is its root (empty, \<open>/\<close>, or \<open>//\<close> for exactly two
  leading slashes) and its components, with empty components and single dots dropped and
  double dots kept. \<open>name\<close> is the last component (empty if there is none), \<open>/\<close> appends the
  components of a relative operand and is replaced by an absolute one, and \<open>str\<close> joins
  root and components, giving a single dot for the empty path.
\<close>

type_synonym Path = "string \<times> string list"

fun split_slash :: "string \<Rightarrow> string list" where
  "split_slash [] = [[]]"
| "split_slash (c # cs) =
     (if c = CHR ''/'' then [] # split_slash cs
      else (case split_slash cs of
              [] \<Rightarrow> [[c]]
            | part # parts \<Rightarrow> (c # part) # parts))"

definition path_root :: "string \<Rightarrow> string" where
  "path_root s =
     (if take 2 s = ''//'' \<and> take 3 s \<noteq> ''///'' then ''//''
      else if take 1 s = ''/'' then ''/'' else [])"

definition path_parts :: "string \<Rightarrow> string list" where
  "path_parts s = filter (\<lambda>part. part \<noteq> [] \<and> part \<noteq> ''.'') (split_slash s)"

definition Path_of :: "string \<Rightarrow> Path" where
  "Path_of s = (path_root s, path_parts s)"

definition path_name :: "Path \<Rightarrow> string" where
  "path_name p = (if snd p = [] then [] else last (snd p))"

definition path_div :: "Path \<Rightarrow> string \<Rightarrow> Path" where
  "path_div p s = (if path_root s \<noteq> [] then Path_of s else (fst p, snd p @ path_parts s))"

fun join_slash :: "string list \<Rightarrow> string" where
  "join_slash [] = []"
| "join_slash [part] = part"
| "join_slash (part # parts) = part @ ''/'' @ join_slash parts"

definition path_str :: "Path \<Rightarrow> string" where
  "path_str p = (if fst p = [] \<and> snd p = [] then ''.'' else fst p @ join_slash (snd p))"

text \<open>
  \<open>load_index\<close> returns the manager after the call together with the exception that left
  the method, if any. Each assignment to \<open>self\<close> is an update of the record, made at the
  place where the source makes it, so that what a raise leaves behind is visible.
\<close>

definition load_index ::
  "'e DaemonWorld \<Rightarrow> 'e IndexManager \<Rightarrow> string \<Rightarrow> 'e IndexManager \<times> error option" where
  "load_index w m name =
     (if active_index m = Some name \<and> engine m \<noteq> None then (m, None)
      else case get_index_path w name of
        None \<Rightarrow> (m, Some (ValueError (''Unknown index: '' @ name)))
      | Some index_path \<Rightarrow>
          (let path = Path_of index_path;
               gundog_dir =
                 (if path_name path = ''.gundog'' then path else path_div path ''.gundog'');
               config_file = path_div gundog_dir ''config.yaml'';
               gundog_config =
                 (if path_exists w (path_str config_file) then
                    (case GundogConfig_load w (path_str config_file) of
                       Inl e \<Rightarrow> Inl e
                     | Inr c \<Rightarrow>
                         Inr (c\<lparr>storage_path := path_str (path_div gundog_dir ''index'')\<rparr>))
                  else Inr (GundogConfig_minimal w (path_str (path_div gundog_dir ''index''))))
           in case gundog_config of
                Inl e \<Rightarrow> (m, Some e)
              | Inr c \<Rightarrow>
                  (case QueryEngine_new w c of
                     Inl e \<Rightarrow> (m, Some e)
                   | Inr eng \<Rightarrow>
                       ((m\<lparr>engine := Some eng\<rparr>)\<lparr>active_index := Some name\<rparr>, None))))"

text \<open>
  The states a manager can be in: it is created empty and only \<open>load_index\<close> writes to it
  (\<open>ensure_loaded\<close> and the HTTP handlers go through \<open>load_index\<close>). \<open>load_many\<close> runs
  a sequence of calls, each caller catching or propagating the exception.
\<close>

fun load_many :: "'e DaemonWorld \<Rightarrow> 'e IndexManager \<Rightarrow> string list \<Rightarrow> 'e IndexManager" where
  "load_many w m [] = m"
| "load_many w m (n # ns) = load_many w (fst (load_index w m n)) ns"

text \<open>\<open>ensure_loaded\<close>: an empty or missing name falls back to the default index.\<close>

definition ensure_loaded ::
  "'e DaemonWorld \<Rightarrow> string option \<Rightarrow> 'e IndexManager \<Rightarrow> string option
     \<Rightarrow> 'e IndexManager \<times> (error + 'e)" where
  "ensure_loaded w default_index m index_name =
     (let target = (if index_name = None \<or> index_name = Some [] then default_index else index_name)
      in case target of
           None \<Rightarrow>
             (m, Inl (ValueError
                (''No index specified and no default_index configured. '' @
                 ''Add an index with: gundog daemon add <name> <path>'')))
         | Some t \<Rightarrow>
             (case load_index w m t of
                (m', Some e) \<Rightarrow> (m', Inl e)
              | (m', None) \<Rightarrow>
                  (case engine m' of
                     None \<Rightarrow> (m', Inl (ExternalFailure ''AssertionError''))
                   | Some eng \<Rightarrow> (m', Inr eng))))"

section \<open>Chunk identifiers (\<open>_chunker.py\<close>, not among the sources)\<close>

text \<open>
  \<open>_indexer.py\<close> and \<open>_query.py\<close> import \<open>chunk_text\<close>, \<open>make_chunk_id\<close> and
  \<open>parse_chunk_id\<close> from a module that is not available. The functions below take them as
  the fields of a \<open>Chunker\<close>, so every theorem holds for whatever that module computes.
\<close>

record Chunk =
  chunk_index :: int
  chunk_body :: string
  start_char :: int
  end_char :: int

record Chunker =
  chunk_text :: "string \<Rightarrow> int \<Rightarrow> int \<Rightarrow> Chunk list"
  make_chunk_id :: "string \<Rightarrow> int \<Rightarrow> string"
  parse_chunk_id :: "string \<Rightarrow> string \<times> int option"

text \<open>
  Modelled from the spec: the bodies of \<open>make_chunk_id\<close> and \<open>parse_chunk_id\<close> are missing.
  The spec's data model gives the format: a chunk id is the parent path, or the parent path
  followed by \<open>#chunk_\<close> and the chunk index in decimal, and the mapping is parseable both
  ways. These two functions are used only to run the code at concrete inputs.
\<close>

definition digit_char :: "nat \<Rightarrow> char" where
  "digit_char n = ''0123456789'' ! (n mod 10)"

fun decimal :: "nat \<Rightarrow> string" where
  "decimal n = (if n < 10 then [digit_char n] else decimal (n div 10) @ [digit_char (n mod 10)])"

definition is_digit :: "char \<Rightarrow> bool" where
  "is_digit c = (c \<in> set ''0123456789'')"

definition digit_value :: "char \<Rightarrow> nat" where
  "digit_value c = of_char c - 48"

definition spec_make_chunk_id :: "string \<Rightarrow> int \<Rightarrow> string" where
  "spec_make_chunk_id file_path i = file_path @ ''#chunk_'' @ decimal (nat i)"

fun spec_parse_chunk_id :: "string \<Rightarrow> string \<times> int option" where
  "spec_parse_chunk_id [] = ([], None)"
| "spec_parse_chunk_id (c # cs) =
     (if take 7 (c # cs) = ''#chunk_'' \<and> drop 7 (c # cs) \<noteq> [] \<and> list_all is_digit (drop 7 (c # cs))
      then ([], Some (int (foldl (\<lambda>a d. 10 * a + digit_value d) 0 (drop 7 (c # cs)))))
      else (c # fst (spec_parse_chunk_id cs), snd (spec_parse_chunk_id cs)))"

section \<open>Query engine (\<open>_query.py\<close>)\<close>

text \<open>
  \<open>SearchResult\<close> comes from the store module: an id, a cosine score and the metadata
  dictionary. Scores are floats in the source and rationals here.
\<close>

record SearchResult =
  res_id :: string
  score :: rat
  metadata :: metadata

text \<open>The values of the dictionary that \<open>graph.expand\<close> returns, keyed by node id.\<close>

record ExpandInfo =
  info_type :: mval
  info_via :: string
  info_edge_weight :: rat
  info_depth :: int

text \<open>
  The engine: its configuration and its collaborators. The embedder, the store's search and
  lookup, the BM25 index and the graph are outside these files and enter as functions; the
  dictionary returned by \<open>graph.expand\<close> is an association list in its iteration order.
\<close>

record 'v QueryEngine =
  config :: GundogConfig
  embed_text :: "string \<Rightarrow> 'v"
  store_search :: "'v \<Rightarrow> int \<Rightarrow> SearchResult list"
  store_get :: "string \<Rightarrow> ('v \<times> metadata) option"
  bm25_is_empty :: bool
  bm25_search :: "string \<Rightarrow> int \<Rightarrow> (string \<times> rat) list"
  graph_expand :: "string list \<Rightarrow> rat \<Rightarrow> int \<Rightarrow> (string \<times> ExpandInfo) list"

record DirectEntry =
  path :: string
  entry_type :: mval
  entry_score :: rat
  chunk :: "int option"
  lines :: "(mval \<times> mval) option"

record RelatedEntry =
  rel_path :: string
  rel_type :: mval
  via :: string
  edge_weight :: rat
  depth :: int
  rel_chunk :: "int option"

record QueryResult =
  query_text :: string
  direct :: "DirectEntry list"
  related :: "RelatedEntry list"

subsection \<open>Python primitives\<close>

text \<open>\<open>xs[:k]\<close>: a negative bound counts from the end.\<close>

definition slice_to :: "int \<Rightarrow> 'a list \<Rightarrow> 'a list" where
  "slice_to k xs = (if 0 \<le> k then take (nat k) xs else take (length xs - nat (- k)) xs)"

text \<open>Truth value of a metadata value, as \<open>if v:\<close> tests it.\<close>

fun truthy :: "mval option \<Rightarrow> bool" where
  "truthy None = False"
| "truthy (Some MNone) = False"
| "truthy (Some (MStr s)) = (s \<noteq> [])"
| "truthy (Some (MInt i)) = (i \<noteq> 0)"
| "truthy (Some (MNum x)) = (x \<noteq> 0)"

text \<open>
  \<open>round(x, 4)\<close>: to the nearest multiple of \<open>1/10000\<close>, a tie going to the even
  neighbour. (Python rounds the exact binary value of the float; on rationals this is the
  same rule without the representation error.)
\<close>

definition round_half_even :: "rat \<Rightarrow> int" where
  "round_half_even x =
     (let f = \<lfloor>x\<rfloor>; d = x - of_int f
      in if d < 1/2 then f else if 1/2 < d then f + 1 else if even f then f else f + 1)"

definition round4 :: "rat \<Rightarrow> rat" where
  "round4 x = of_int (round_half_even (x * 10000)) / 10000"

text \<open>
  \<open>sorted(xs, key=f, reverse=True)\<close> and \<open>xs.sort(key=f, reverse=True)\<close> are stable: elements
  with equal keys keep their order. That is the stable ascending sort by the negated key.
\<close>

definition sort_desc :: "('a \<Rightarrow> rat) \<Rightarrow> 'a list \<Rightarrow> 'a list" where
  "sort_desc f xs = sort_key (\<lambda>x. - f x) xs"

subsection \<open>\<open>_fuse_results\<close>\<close>

text \<open>\<open>rrf_scores\<close> is a \<open>defaultdict(float)\<close>: a missing key reads as \<open>0\<close>.\<close>

definition rrf_get :: "(string \<times> rat) list \<Rightarrow> string \<Rightarrow> rat" where
  "rrf_get rrf k = (case map_of rrf k of None \<Rightarrow> 0 | Some x \<Rightarrow> x)"

text \<open>
  The first loop, over \<open>enumerate(vector_results)\<close>; the accumulator is
  \<open>(rrf_scores, vector_scores, metadata_map)\<close> and \<open>rank\<close> the running index.
\<close>

fun fuse_vector ::
  "rat \<Rightarrow> nat \<Rightarrow> SearchResult list
    \<Rightarrow> (string \<times> rat) list \<times> (string \<rightharpoonup> rat) \<times> (string \<rightharpoonup> metadata)
    \<Rightarrow> (string \<times> rat) list \<times> (string \<rightharpoonup> rat) \<times> (string \<rightharpoonup> metadata)" where
  "fuse_vector vw rank [] acc = acc"
| "fuse_vector vw rank (r # rs) (rrf, vs, mm) =
     fuse_vector vw (Suc rank) rs
       (AList.update (res_id r) (rrf_get rrf (res_id r) + vw / (60 + of_nat rank)) rrf,
        vs(res_id r \<mapsto> score r),
        mm(res_id r \<mapsto> metadata r))"

text \<open>The second loop, over \<open>enumerate(bm25_results)\<close>.\<close>

fun fuse_bm25 ::
  "(string \<Rightarrow> ('v \<times> metadata) option) \<Rightarrow> rat \<Rightarrow> nat \<Rightarrow> (string \<times> rat) list
    \<Rightarrow> (string \<times> rat) list \<times> (string \<rightharpoonup> metadata)
    \<Rightarrow> (string \<times> rat) list \<times> (string \<rightharpoonup> metadata)" where
  "fuse_bm25 lookup bw rank [] acc = acc"
| "fuse_bm25 lookup bw rank ((doc_id, s) # rest) (rrf, mm) =
     fuse_bm25 lookup bw (Suc rank) rest
       (AList.update doc_id (rrf_get rrf doc_id + bw / (60 + of_nat rank)) rrf,
        (if mm doc_id = None then
           (case lookup doc_id of
              Some (v, meta) \<Rightarrow> mm(doc_id \<mapsto> meta)
            | None \<Rightarrow> mm(doc_id \<mapsto> Map.empty))
         else mm))"

definition fuse_results ::
  "'v QueryEngine \<Rightarrow> SearchResult list \<Rightarrow> (string \<times> rat) list \<Rightarrow> int \<Rightarrow> SearchResult list" where
  "fuse_results e vector_results bm25_results top_k =
     (case fuse_vector (vector_weight (config e)) 0 vector_results ([], Map.empty, Map.empty) of
        (rrf1, vector_scores, mm1) \<Rightarrow>
          (case fuse_bm25 (store_get e) (bm25_weight (config e)) 0 bm25_results (rrf1, mm1) of
             (rrf_scores, metadata_map) \<Rightarrow>
               (let sorted_ids = sort_desc (rrf_get rrf_scores) (map fst rrf_scores)
                in map (\<lambda>doc_id.
                         \<lparr>res_id = doc_id,
                          score = (case vector_scores doc_id of None \<Rightarrow> 0 | Some x \<Rightarrow> x),
                          metadata = (case metadata_map doc_id of None \<Rightarrow> Map.empty | Some m \<Rightarrow> m)\<rparr>)
                       (slice_to top_k sorted_ids))))"

subsection \<open>\<open>_deduplicate_chunks\<close>\<close>

text \<open>
  \<open>best_by_file\<close> is a dictionary in insertion order: a new key goes to the end, an existing
  key keeps its place. The marking of the kept chunk's metadata is part of the loop.
\<close>

fun dedup_loop ::
  "Chunker \<Rightarrow> SearchResult list \<Rightarrow> (string \<times> SearchResult) list \<Rightarrow> (string \<times> SearchResult) list" where
  "dedup_loop ck [] best_by_file = best_by_file"
| "dedup_loop ck (r # rs) best_by_file =
     (case parse_chunk_id ck (res_id r) of
        (parent_file, chunk_idx) \<Rightarrow>
          (if (case map_of best_by_file parent_file of
                 None \<Rightarrow> True
               | Some b \<Rightarrow> score b < score r)
           then dedup_loop ck rs
                  (AList.update parent_file
                     (case chunk_idx of
                        None \<Rightarrow> r
                      | Some i \<Rightarrow>
                          r\<lparr>metadata := (metadata r)
                               (''_chunk_index'' \<mapsto> MInt i,
                                ''_parent_file'' \<mapsto> MStr parent_file)\<rparr>)
                     best_by_file)
           else dedup_loop ck rs best_by_file))"

definition deduplicate_chunks ::
  "Chunker \<Rightarrow> 'v QueryEngine \<Rightarrow> SearchResult list \<Rightarrow> SearchResult list" where
  "deduplicate_chunks ck e results =
     (if \<not> chunking_enabled (config e) then results
      else map snd (dedup_loop ck results []))"

subsection \<open>\<open>_rescale_score\<close>\<close>

definition rescale_score :: "rat \<Rightarrow> rat \<Rightarrow> error + rat" where
  "rescale_score raw_score baseline =
     (if raw_score \<le> baseline then Inr 0
      else if 1 - baseline = 0 then Inl ZeroDivisionError
      else Inr ((raw_score - baseline) / (1 - baseline)))"

subsection \<open>\<open>query\<close>\<close>

text \<open>
  Phase 1 up to the minimum-score filter: the dense results that every later step draws on.
\<close>

definition dense_results :: "'v QueryEngine \<Rightarrow> string \<Rightarrow> int \<Rightarrow> rat \<Rightarrow> SearchResult list" where
  "dense_results e q top_k min_score =
     filter (\<lambda>r. min_score \<le> score r) (store_search e (embed_text e q) (top_k * 2))"

text \<open>The BM25 hits kept for fusion: those whose id is among the dense results.\<close>

definition valid_bm25 :: "SearchResult list \<Rightarrow> (string \<times> rat) list \<Rightarrow> (string \<times> rat) list" where
  "valid_bm25 vector_results bm25_results =
     filter (\<lambda>(doc_id, s). doc_id \<in> set (map res_id vector_results)) bm25_results"

definition hybrid_search :: "'v QueryEngine \<Rightarrow> string \<Rightarrow> int \<Rightarrow> rat \<Rightarrow> SearchResult list" where
  "hybrid_search e q top_k min_score =
     (let vector_results = dense_results e q top_k min_score
      in if hybrid_enabled (config e) \<and> \<not> bm25_is_empty e then
           (if vector_results \<noteq> [] then
              fuse_results e vector_results
                (valid_bm25 vector_results (bm25_search e q (top_k * 2))) (top_k * 2)
            else [])
         else vector_results)"

text \<open>\<open>if type_filter:\<close> holds for a non-empty string.\<close>

definition filter_given :: "string option \<Rightarrow> bool" where
  "filter_given type_filter = (type_filter \<noteq> None \<and> type_filter \<noteq> Some [])"

text \<open>Deduplication, type filter, re-sort by score and cut to \<open>top_k\<close>.\<close>

definition direct_hits ::
  "Chunker \<Rightarrow> 'v QueryEngine \<Rightarrow> string \<Rightarrow> int \<Rightarrow> string option \<Rightarrow> rat \<Rightarrow> SearchResult list" where
  "direct_hits ck e q top_k type_filter min_score =
     (let deduped = deduplicate_chunks ck e (hybrid_search e q top_k min_score);
          typed = (if filter_given type_filter
                   then filter (\<lambda>r. metadata r ''type'' = map_option MStr type_filter) deduped
                   else deduped)
      in slice_to top_k (sort_desc score typed))"

text \<open>
  One entry of \<open>direct\<close>. The subscript \<open>r.metadata['end_line']\<close> raises when the key is
  missing; the text \<open>f"{start}-{end}"\<close> is kept as the pair of its two values.
\<close>

definition direct_entry :: "Chunker \<Rightarrow> SearchResult \<Rightarrow> error + DirectEntry" where
  "direct_entry ck r =
     (case parse_chunk_id ck (res_id r) of
        (parent_file, chunk_idx) \<Rightarrow>
          (case rescale_score (score r) (1/2) of
             Inl err \<Rightarrow> Inl err
           | Inr sc \<Rightarrow>
               (let entry = \<lparr>path = parent_file,
                             entry_type = (case metadata r ''type'' of
                                             None \<Rightarrow> MStr ''unknown'' | Some t \<Rightarrow> t),
                             entry_score = round4 sc,
                             chunk = chunk_idx,
                             lines = None\<rparr>
                in if truthy (metadata r ''start_line'') then
                     (case (metadata r ''start_line'', metadata r ''end_line'') of
                        (Some sl, Some el) \<Rightarrow> Inr (entry\<lparr>lines := Some (sl, el)\<rparr>)
                      | _ \<Rightarrow> Inl (KeyError ''end_line''))
                   else Inr entry)))"

fun format_direct :: "Chunker \<Rightarrow> SearchResult list \<Rightarrow> error + DirectEntry list" where
  "format_direct ck [] = Inr []"
| "format_direct ck (r # rs) =
     (case direct_entry ck r of
        Inl err \<Rightarrow> Inl err
      | Inr d \<Rightarrow>
          (case format_direct ck rs of
             Inl err \<Rightarrow> Inl err
           | Inr ds \<Rightarrow> Inr (d # ds)))"

text \<open>
  The loop over \<open>expanded.items()\<close>; \<open>seen\<close> is \<open>seen_parent_files\<close>. A node is marked as
  seen before the type filter looks at it.
\<close>

fun related_loop ::
  "Chunker \<Rightarrow> string option \<Rightarrow> string list \<Rightarrow> string list \<Rightarrow> (string \<times> ExpandInfo) list
    \<Rightarrow> string list \<Rightarrow> RelatedEntry list" where
  "related_loop ck type_filter direct_ids direct_parent_files [] seen = []"
| "related_loop ck type_filter direct_ids direct_parent_files ((node_id, info) # rest) seen =
     (if node_id \<in> set direct_ids
      then related_loop ck type_filter direct_ids direct_parent_files rest seen
      else case parse_chunk_id ck node_id of
        (parent_file, chunk_idx) \<Rightarrow>
          (if parent_file \<in> set direct_parent_files \<or> parent_file \<in> set seen
           then related_loop ck type_filter direct_ids direct_parent_files rest seen
           else if filter_given type_filter \<and> Some (info_type info) \<noteq> map_option MStr type_filter
           then related_loop ck type_filter direct_ids direct_parent_files rest (parent_file # seen)
           else \<lparr>rel_path = parent_file,
                 rel_type = info_type info,
                 via = fst (parse_chunk_id ck (info_via info)),
                 edge_weight = round4 (info_edge_weight info),
                 depth = info_depth info,
                 rel_chunk = chunk_idx\<rparr>
                # related_loop ck type_filter direct_ids direct_parent_files rest
                    (parent_file # seen)))"

text \<open>\<open>expand_depth or self.config.graph.max_expand_depth\<close>: \<open>None\<close> and \<open>0\<close> are falsy.\<close>

definition effective_depth :: "GundogConfig \<Rightarrow> int option \<Rightarrow> int" where
  "effective_depth c expand_depth =
     (case expand_depth of
        None \<Rightarrow> max_expand_depth c
      | Some d \<Rightarrow> if d = 0 then max_expand_depth c else d)"

definition related_results ::
  "Chunker \<Rightarrow> 'v QueryEngine \<Rightarrow> bool \<Rightarrow> int option \<Rightarrow> string option \<Rightarrow> SearchResult list
    \<Rightarrow> RelatedEntry list" where
  "related_results ck e expand expand_depth type_filter search_results =
     (if expand \<and> search_results \<noteq> [] then
        (let seed_ids = map res_id search_results;
             depth = effective_depth (config e) expand_depth;
             expanded = graph_expand e seed_ids (expand_threshold (config e)) depth;
             direct_parent_files = map (\<lambda>sid. fst (parse_chunk_id ck sid)) seed_ids
         in sort_desc edge_weight
              (related_loop ck type_filter seed_ids direct_parent_files expanded []))
      else [])"

definition query ::
  "Chunker \<Rightarrow> 'v QueryEngine \<Rightarrow> string \<Rightarrow> int \<Rightarrow> bool \<Rightarrow> int option \<Rightarrow> string option \<Rightarrow> rat
    \<Rightarrow> error + QueryResult" where
  "query ck e q top_k expand expand_depth type_filter min_score =
     (let search_results = direct_hits ck e q top_k type_filter min_score
      in case format_direct ck search_results of
           Inl err \<Rightarrow> Inl err
         | Inr ds \<Rightarrow>
             Inr \<lparr>query_text = q,
                  direct = ds,
                  related = related_results ck e expand expand_depth type_filter search_results\<rparr>)"

section \<open>Indexer (\<open>_indexer.py\<close>)\<close>

subsection \<open>Vector store\<close>

text \<open>
  Modelled from the spec: the store module is missing. The spec's vector store is a
  dictionary from ids to a vector and its metadata: \<open>upsert\<close> replaces any prior entry with
  the same id, \<open>get\<close> returns the entry or nothing, \<open>delete\<close> removes it, \<open>all_ids\<close> and
  \<open>all_vectors\<close> iterate over it. The dictionary is an association list in insertion
  order; vectors are values of an abstract type \<open>'v\<close>.
\<close>

type_synonym 'v Store = "(string \<times> 'v \<times> metadata) list"

definition get :: "'v Store \<Rightarrow> string \<Rightarrow> ('v \<times> metadata) option" where
  "get st i = map_of st i"

definition upsert :: "string \<Rightarrow> 'v \<Rightarrow> metadata \<Rightarrow> 'v Store \<Rightarrow> 'v Store" where
  "upsert i v meta st = AList.update i (v, meta) st"

definition delete :: "string \<Rightarrow> 'v Store \<Rightarrow> 'v Store" where
  "delete i st = AList.delete i st"

definition all_ids :: "'v Store \<Rightarrow> string list" where
  "all_ids st = map fst st"

definition all_vectors :: "'v Store \<Rightarrow> (string \<times> 'v) list" where
  "all_vectors st = map (\<lambda>(i, v, meta). (i, v)) st"

subsection \<open>The world of an indexing pass\<close>

text \<open>
  A regular file has a modification time and a content; the content is \<open>None\<close> when
  \<open>read_text(encoding="utf-8")\<close> raises on it. A path is the string \<open>str(path)\<close>.
\<close>

record File =
  mtime :: rat
  content :: "string option"

text \<open>
  What \<open>Indexer\<close> reads from outside the class: the file system (regular files, existence
  of a source root, glob enumeration), \<open>fnmatch\<close>, the exclusion templates, the first 16
  hex digits of SHA-256, the embedder's \<open>embed_batch\<close> (which may raise), and the builders
  of the graph and of the BM25 index, whose results are values of abstract types.
\<close>

record ('v, 'g, 'b) World =
  files :: "string \<rightharpoonup> File"
  root_exists :: "string \<Rightarrow> bool"
  glob :: "string \<Rightarrow> string \<Rightarrow> string list"
  fnmatch :: "string \<Rightarrow> string \<Rightarrow> bool"
  get_exclusion_patterns :: "string \<Rightarrow> string list"
  sha256_16 :: "string \<Rightarrow> string"
  embed_batch :: "string list \<Rightarrow> error + 'v list"
  graph_build :: "(string \<times> 'v) list \<Rightarrow> (string \<times> metadata) list \<Rightarrow> rat \<Rightarrow> 'g"
  bm25_build :: "(string \<times> string) list \<Rightarrow> 'b"

definition stat_mtime :: "('v, 'g, 'b) World \<Rightarrow> string \<Rightarrow> rat option" where
  "stat_mtime w p = map_option mtime (files w p)"

definition read_text :: "('v, 'g, 'b) World \<Rightarrow> string \<Rightarrow> string option" where
  "read_text w p = (case files w p of None \<Rightarrow> None | Some f \<Rightarrow> content f)"

text \<open>
  The indexer object: the store in memory, the graph and the BM25 index, and beside them
  the three artifacts on disk. \<open>trace\<close> records, in order, each rebuild and each save that
  a pass performs.
\<close>

datatype effect = GraphBuilt | BM25Built | StoreSaved | GraphSaved | BM25Saved

record ('v, 'g, 'b) Indexer =
  store :: "'v Store"
  graph :: 'g
  bm25 :: 'b
  disk_store :: "'v Store"
  disk_graph :: 'g
  disk_bm25 :: 'b
  trace :: "effect list"

record Summary =
  files_total :: int
  files_indexed :: int
  files_skipped :: int
  files_removed :: int
  chunks_indexed :: int

subsection \<open>\<open>_should_exclude\<close>, \<open>_hash_content\<close>, \<open>_scan_source\<close>\<close>

definition should_exclude :: "('v, 'g, 'b) World \<Rightarrow> string \<Rightarrow> string list \<Rightarrow> bool" where
  "should_exclude w p excludes = list_ex (\<lambda>pattern. fnmatch w p pattern) excludes"

definition hash_content :: "('v, 'g, 'b) World \<Rightarrow> string \<Rightarrow> string" where
  "hash_content w text = sha256_16 w text"

definition scan_source :: "('v, 'g, 'b) World \<Rightarrow> SourceConfig \<Rightarrow> string list" where
  "scan_source w source =
     (if \<not> root_exists w (source_path source) then []
      else
        (let excludes = source_exclude source @
               (case exclusion_template source of
                  None \<Rightarrow> []
                | Some t \<Rightarrow> if t = [] then [] else get_exclusion_patterns w t)
         in filter (\<lambda>file_path. files w file_path \<noteq> None \<and> \<not> should_exclude w file_path excludes)
              (glob w (source_path source) (source_glob source))))"

subsection \<open>\<open>_needs_reindex\<close>\<close>

text \<open>
  The entry consulted for a file: the one under its path, else (with chunking enabled) the
  one under the id of its first chunk.
\<close>

definition stored_entry ::
  "Chunker \<Rightarrow> GundogConfig \<Rightarrow> 'v Store \<Rightarrow> string \<Rightarrow> ('v \<times> metadata) option" where
  "stored_entry ck c st file_id =
     (case get st file_id of
        Some r \<Rightarrow> Some r
      | None \<Rightarrow> if chunking_enabled c then get st (make_chunk_id ck file_id 0) else None)"

text \<open>\<open>stat\<close> and \<open>read_text\<close> are outside any \<open>try\<close> here: their failure leaves the method.\<close>

definition needs_reindex ::
  "('v, 'g, 'b) World \<Rightarrow> Chunker \<Rightarrow> GundogConfig \<Rightarrow> 'v Store \<Rightarrow> string \<Rightarrow> error + bool" where
  "needs_reindex w ck c st file_id =
     (case stored_entry ck c st file_id of
        None \<Rightarrow> Inr True
      | Some (v, meta) \<Rightarrow>
          (case stat_mtime w file_id of
             None \<Rightarrow> Inl (IOFailure file_id)
           | Some current_mtime \<Rightarrow>
               if float_eq current_mtime (meta ''mtime'') then Inr False
               else
                 (case read_text w file_id of
                    None \<Rightarrow> Inl (IOFailure file_id)
                  | Some text \<Rightarrow>
                      Inr (Some (MStr (hash_content w text)) \<noteq> meta ''content_hash''))))"

subsection \<open>\<open>index\<close>: scan, removal, selection\<close>

text \<open>
  \<open>all_files\<close> maps each path to the type of the last source that found it; a path found
  again keeps its place in the dictionary.
\<close>

fun scan_sources ::
  "('v, 'g, 'b) World \<Rightarrow> SourceConfig list \<Rightarrow> (string \<times> string option) list
    \<Rightarrow> (string \<times> string option) list" where
  "scan_sources w [] all_files = all_files"
| "scan_sources w (source # rest) all_files =
     scan_sources w rest
       (foldl (\<lambda>af file_path. AList.update file_path (source_type source) af)
          all_files (scan_source w source))"

text \<open>
  The loop over \<open>existing_ids\<close>. The source iterates over a set, in an order that the result
  does not depend on; here the order is that of \<open>all_ids\<close>.
\<close>

fun remove_missing ::
  "Chunker \<Rightarrow> string list \<Rightarrow> string list \<Rightarrow> 'v Store \<Rightarrow> int \<Rightarrow> 'v Store \<times> int" where
  "remove_missing ck current_file_ids [] st removed_count = (st, removed_count)"
| "remove_missing ck current_file_ids (existing_id # rest) st removed_count =
     (if fst (parse_chunk_id ck existing_id) \<notin> set current_file_ids
      then remove_missing ck current_file_ids rest (delete existing_id st) (removed_count + 1)
      else remove_missing ck current_file_ids rest st removed_count)"

text \<open>
  The selection loop; \<open>rebuild or self._needs_reindex(file_path)\<close> does not call
  \<open>_needs_reindex\<close> when \<open>rebuild\<close> is true.
\<close>

fun select_files ::
  "('v, 'g, 'b) World \<Rightarrow> Chunker \<Rightarrow> GundogConfig \<Rightarrow> 'v Store \<Rightarrow> bool
    \<Rightarrow> (string \<times> string option) list \<Rightarrow> (string \<times> string option) list \<Rightarrow> int
    \<Rightarrow> error + (string \<times> string option) list \<times> int" where
  "select_files w ck c st rebuild [] to_index skipped = Inr (to_index, skipped)"
| "select_files w ck c st rebuild ((file_id, file_type) # rest) to_index skipped =
     (if rebuild then select_files w ck c st rebuild rest (to_index @ [(file_id, file_type)]) skipped
      else
        (case needs_reindex w ck c st file_id of
           Inl err \<Rightarrow> Inl err
         | Inr True \<Rightarrow>
             select_files w ck c st rebuild rest (to_index @ [(file_id, file_type)]) skipped
         | Inr False \<Rightarrow> select_files w ck c st rebuild rest to_index (skipped + 1)))"

subsection \<open>\<open>index\<close>: preparing and storing embeddings\<close>

text \<open>An element of \<open>embed_items\<close>: id, text, path, type, start line, end line.\<close>

record EmbedItem =
  item_id :: string
  item_text :: string
  item_path :: string
  item_type :: "string option"
  item_start_line :: "int option"
  item_end_line :: "int option"

definition newline :: char where
  "newline = CHR 0x0A"

definition str_int :: "int \<Rightarrow> string" where
  "str_int i = (if i < 0 then ''-'' @ decimal (nat (- i)) else decimal (nat i))"

definition count_newlines :: "string \<Rightarrow> int" where
  "count_newlines text = int (length (filter (\<lambda>ch. ch = newline) text))"

text \<open>The removal of a file's old chunks, over a snapshot of \<open>all_ids\<close>.\<close>

definition delete_chunks_of :: "Chunker \<Rightarrow> string \<Rightarrow> 'v Store \<Rightarrow> 'v Store" where
  "delete_chunks_of ck file_id st =
     foldl (\<lambda>s existing_id.
              if fst (parse_chunk_id ck existing_id) = file_id then delete existing_id s else s)
       st (all_ids st)"

definition chunk_item ::
  "Chunker \<Rightarrow> string \<Rightarrow> string option \<Rightarrow> string \<Rightarrow> int \<Rightarrow> Chunk \<Rightarrow> EmbedItem" where
  "chunk_item ck file_id file_type text n ch =
     \<lparr>item_id = make_chunk_id ck file_id (chunk_index ch),
      item_text = ''Path: '' @ file_id @ [newline] @ ''Chunk '' @ str_int (chunk_index ch + 1)
                    @ ''/'' @ str_int n @ [newline, newline] @ chunk_body ch,
      item_path = file_id,
      item_type = file_type,
      item_start_line = Some (count_newlines (slice_to (start_char ch) text) + 1),
      item_end_line = Some (count_newlines (slice_to (end_char ch) text) + 1)\<rparr>"

text \<open>
  The loop over \<open>to_index\<close>. A file whose read raises is reported and passed over; nothing
  of it reaches \<open>embed_items\<close>, and its old chunks stay in the store.
\<close>

fun prepare_items ::
  "('v, 'g, 'b) World \<Rightarrow> Chunker \<Rightarrow> GundogConfig \<Rightarrow> (string \<times> string option) list
    \<Rightarrow> 'v Store \<Rightarrow> EmbedItem list \<Rightarrow> 'v Store \<times> EmbedItem list" where
  "prepare_items w ck c [] st embed_items = (st, embed_items)"
| "prepare_items w ck c ((file_id, file_type) # rest) st embed_items =
     (case read_text w file_id of
        None \<Rightarrow> prepare_items w ck c rest st embed_items
      | Some text \<Rightarrow>
          if chunking_enabled c then
            (let chunks = chunk_text ck text (max_tokens c) (overlap_tokens c)
             in prepare_items w ck c rest (delete_chunks_of ck file_id st)
                  (embed_items @
                     map (chunk_item ck file_id file_type text (int (length chunks))) chunks))
          else
            prepare_items w ck c rest st
              (embed_items @
                 [\<lparr>item_id = file_id,
                   item_text = ''Path: '' @ file_id @ [newline, newline] @ text,
                   item_path = file_id,
                   item_type = file_type,
                   item_start_line = None,
                   item_end_line = None\<rparr>]))"

definition file_meta :: "('v, 'g, 'b) World \<Rightarrow> Chunker \<Rightarrow> EmbedItem \<Rightarrow> string \<Rightarrow> rat \<Rightarrow> metadata" where
  "file_meta w ck it text current_mtime =
     (let base = [''type'' \<mapsto> (case item_type it of None \<Rightarrow> MNone | Some t \<Rightarrow> MStr t),
                  ''mtime'' \<mapsto> MNum current_mtime,
                  ''content_hash'' \<mapsto> MStr (hash_content w text)]
      in case parse_chunk_id ck (item_id it) of
           (parent_file, None) \<Rightarrow> base
         | (parent_file, Some chunk_idx) \<Rightarrow>
             (let chunked = base(''parent_file'' \<mapsto> MStr parent_file,
                                 ''chunk_index'' \<mapsto> MInt chunk_idx)
              in case item_start_line it of
                   None \<Rightarrow> chunked
                 | Some start_line \<Rightarrow>
                     chunked(''start_line'' \<mapsto> MInt start_line,
                             ''end_line'' \<mapsto> (case item_end_line it of
                                                 None \<Rightarrow> MNone
                                               | Some end_line \<Rightarrow> MInt end_line))))"

text \<open>
  The loop over the items zipped with their embeddings. An item whose file cannot be read or
  stat'ed at this point is reported and passed over.
\<close>

fun upsert_items ::
  "('v, 'g, 'b) World \<Rightarrow> Chunker \<Rightarrow> (EmbedItem \<times> 'v) list \<Rightarrow> 'v Store \<Rightarrow> int \<Rightarrow> 'v Store \<times> int" where
  "upsert_items w ck [] st chunks_count = (st, chunks_count)"
| "upsert_items w ck ((it, embedding) # rest) st chunks_count =
     (case (read_text w (item_path it), stat_mtime w (item_path it)) of
        (Some text, Some current_mtime) \<Rightarrow>
          upsert_items w ck rest
            (upsert (item_id it) embedding (file_meta w ck it text current_mtime) st)
            (chunks_count + 1)
      | _ \<Rightarrow> upsert_items w ck rest st chunks_count)"

text \<open>
  \<open>embed_batch\<close> and \<open>zip(..., strict=True)\<close> are outside any \<open>try\<close>: a failing embedder, or
  a number of embeddings other than the number of items, leaves \<open>index\<close> with an exception.
\<close>

definition embed_and_store ::
  "('v, 'g, 'b) World \<Rightarrow> Chunker \<Rightarrow> EmbedItem list \<Rightarrow> 'v Store \<Rightarrow> error + 'v Store \<times> int" where
  "embed_and_store w ck embed_items st =
     (if embed_items = [] then Inr (st, 0)
      else
        (case embed_batch w (map item_text embed_items) of
           Inl err \<Rightarrow> Inl err
         | Inr embeddings \<Rightarrow>
             if length embeddings \<noteq> length embed_items
             then Inl (ValueError ''zip() arguments have different lengths'')
             else Inr (upsert_items w ck (zip embed_items embeddings) st 0)))"

subsection \<open>\<open>index\<close>: rebuilding graph and BM25 index, saving\<close>

text \<open>
  \<open>chunks[chunk_idx]\<close> for an \<open>int\<close> read from metadata: a negative index counts from the
  end, and an index out of range raises (\<open>None\<close> here; the caller swallows the exception).
\<close>

definition chunk_at :: "Chunk list \<Rightarrow> int \<Rightarrow> Chunk option" where
  "chunk_at chunks ci =
     (let n = int (length chunks); j = (if ci < 0 then n + ci else ci)
      in if 0 \<le> j \<and> j < n then Some (chunks ! nat j) else None)"

text \<open>
  The BM25 document of a store entry in chunked mode, \<open>None\<close> when the entry contributes
  none: file gone or unreadable, chunk index not below the number of chunks, or an
  exception swallowed by the \<open>except Exception: pass\<close> (a \<open>parent_file\<close> that is not a
  string, a \<open>chunk_index\<close> that is a string, a float used as a list index, an index out of
  range).
\<close>

definition bm25_document ::
  "('v, 'g, 'b) World \<Rightarrow> Chunker \<Rightarrow> GundogConfig \<Rightarrow> string \<Rightarrow> metadata \<Rightarrow> string option" where
  "bm25_document w ck c item meta =
     (case (case meta ''parent_file'' of
              None \<Rightarrow> Some item
            | Some (MStr p) \<Rightarrow> Some p
            | Some other \<Rightarrow> None) of
        None \<Rightarrow> None
      | Some parent_file \<Rightarrow>
          (case read_text w parent_file of
             None \<Rightarrow> None
           | Some text \<Rightarrow>
               (case meta ''chunk_index'' of
                  Some (MInt ci) \<Rightarrow>
                    (let chunks = chunk_text ck text (max_tokens c) (overlap_tokens c)
                     in if ci < int (length chunks)
                        then map_option (\<lambda>ch. parent_file @ [newline] @ chunk_body ch)
                               (chunk_at chunks ci)
                        else None)
                | Some (MNum x) \<Rightarrow> None
                | Some (MStr x) \<Rightarrow> None
                | _ \<Rightarrow> Some (parent_file @ [newline] @ text))))"

definition bm25_documents ::
  "('v, 'g, 'b) World \<Rightarrow> Chunker \<Rightarrow> GundogConfig \<Rightarrow> 'v Store \<Rightarrow> (string \<times> string) list" where
  "bm25_documents w ck c st =
     (if chunking_enabled c then
        foldl (\<lambda>documents item.
                 case get st item of
                   None \<Rightarrow> documents
                 | Some (v, meta) \<Rightarrow>
                     (case bm25_document w ck c item meta of
                        None \<Rightarrow> documents
                      | Some doc \<Rightarrow> AList.update item doc documents))
          [] (all_ids st)
      else
        foldl (\<lambda>documents file_id.
                 case read_text w file_id of
                   None \<Rightarrow> documents
                 | Some text \<Rightarrow> AList.update file_id (file_id @ [newline] @ text) documents)
          [] (all_ids st))"

definition graph_metadata :: "'v Store \<Rightarrow> (string \<times> metadata) list" where
  "graph_metadata st =
     foldl (\<lambda>md (i, v). case get st i of
                           None \<Rightarrow> md
                         | Some (v', meta) \<Rightarrow> AList.update i meta md)
       [] (all_vectors st)"

text \<open>
  Lines 243 to 315: the graph is rebuilt when \<open>needs_rebuild\<close> holds, the BM25 index when
  moreover hybrid search is enabled, and the artifacts are saved when \<open>needs_rebuild\<close> holds.
\<close>

definition rebuild_and_save ::
  "('v, 'g, 'b) World \<Rightarrow> Chunker \<Rightarrow> GundogConfig \<Rightarrow> bool \<Rightarrow> ('v, 'g, 'b) Indexer
    \<Rightarrow> ('v, 'g, 'b) Indexer" where
  "rebuild_and_save w ck c needs_rebuild ix =
     (let ix1 = (if needs_rebuild
                 then ix\<lparr>graph := graph_build w (all_vectors (store ix)) (graph_metadata (store ix))
                                     (similarity_threshold c),
                         trace := trace ix @ [GraphBuilt]\<rparr>
                 else ix);
          ix2 = (if hybrid_enabled c \<and> needs_rebuild
                 then ix1\<lparr>bm25 := bm25_build w (bm25_documents w ck c (store ix1)),
                          trace := trace ix1 @ [BM25Built]\<rparr>
                 else ix1)
      in if needs_rebuild then
           (let ix3 = ix2\<lparr>disk_store := store ix2, trace := trace ix2 @ [StoreSaved]\<rparr>;
                ix4 = ix3\<lparr>disk_graph := graph ix3, trace := trace ix3 @ [GraphSaved]\<rparr>
            in if hybrid_enabled c
               then ix4\<lparr>disk_bm25 := bm25 ix4, trace := trace ix4 @ [BM25Saved]\<rparr>
               else ix4)
         else ix2)"

subsection \<open>\<open>index\<close>\<close>

definition current_files ::
  "('v, 'g, 'b) World \<Rightarrow> GundogConfig \<Rightarrow> (string \<times> string option) list" where
  "current_files w c = scan_sources w (sources c) []"

text \<open>The store after the removal of the entries of vanished files, and their number.\<close>

definition pruned ::
  "('v, 'g, 'b) World \<Rightarrow> Chunker \<Rightarrow> GundogConfig \<Rightarrow> 'v Store \<Rightarrow> 'v Store \<times> int" where
  "pruned w ck c st =
     remove_missing ck (map fst (current_files w c)) (remdups (all_ids st)) st 0"

text \<open>
  The pass. The guards \<open>if to_index:\<close> and \<open>if embed_items:\<close> of the source are the empty
  cases of \<open>prepare_items\<close> and \<open>embed_and_store\<close>.
\<close>

definition index ::
  "('v, 'g, 'b) World \<Rightarrow> Chunker \<Rightarrow> GundogConfig \<Rightarrow> ('v, 'g, 'b) Indexer \<Rightarrow> bool
    \<Rightarrow> error + Summary \<times> ('v, 'g, 'b) Indexer" where
  "index w ck c ix rebuild =
     (let all_files = current_files w c
      in case pruned w ck c (store ix) of
        (st1, removed_count) \<Rightarrow>
          (case select_files w ck c st1 rebuild all_files [] 0 of
             Inl err \<Rightarrow> Inl err
           | Inr (to_index, skipped) \<Rightarrow>
               (case prepare_items w ck c to_index st1 [] of
                  (st2, embed_items) \<Rightarrow>
                    (case embed_and_store w ck embed_items st2 of
                       Inl err \<Rightarrow> Inl err
                     | Inr (st3, chunks_count) \<Rightarrow>
                         (let summary = \<lparr>files_total = int (length all_files),
                                         files_indexed = int (length to_index),
                                         files_skipped = skipped,
                                         files_removed = removed_count,
                                         chunks_indexed = chunks_count\<rparr>;
                              needs_rebuild = (rebuild \<or> 0 < files_indexed summary
                                                 \<or> 0 < files_removed summary)
                          in Inr (summary,
                                  rebuild_and_save w ck c needs_rebuild (ix\<lparr>store := st3\<rparr>)))))))"

text \<open>
  What a run lets one observe without comparing metadata dictionaries: the summary, the
  rebuilds and saves performed, and the ids in the store afterwards.
\<close>

definition observe ::
  "error + Summary \<times> ('v, 'g, 'b) Indexer \<Rightarrow> error + Summary \<times> effect list \<times> string list" where
  "observe r = (case r of Inl err \<Rightarrow> Inl err | Inr (s, ix) \<Rightarrow> Inr (s, trace ix, all_ids (store ix)))"

text \<open>
  Two passes in a row over the same world, without rebuild, and the outcome of the second.
  The trace is emptied between the passes, so that the trace of the outcome lists what the
  second pass rebuilt and saved.
\<close>

definition index_twice ::
  "('v, 'g, 'b) World \<Rightarrow> Chunker \<Rightarrow> GundogConfig \<Rightarrow> ('v, 'g, 'b) Indexer
    \<Rightarrow> error + Summary \<times> ('v, 'g, 'b) Indexer" where
  "index_twice w ck c ix =
     (case index w ck c ix False of
        Inl err \<Rightarrow> Inl err
      | Inr (s, ix') \<Rightarrow> index w ck c (ix'\<lparr>trace := []\<rparr>) False)"

subsection \<open>A concrete daemon world\<close>

text \<open>
  A registry with the two names \<open>docs\<close> and \<open>broken\<close>, no project configuration files,
  and an engine constructor that fails on the artifacts of \<open>broken\<close>. The engine is
  represented by the storage path it was loaded from.
\<close>

definition demo_minimal_config :: "string \<Rightarrow> GundogConfig" where
  "demo_minimal_config p =
     \<lparr>sources = [], embedding_model = ''default'', storage_backend = ''numpy'',
      storage_path = p, chunking_enabled = False, max_tokens = 512, overlap_tokens = 50,
      hybrid_enabled = True, vector_weight = 1/2, bm25_weight = 1/2,
      similarity_threshold = 13/20, expand_threshold = 3/5, max_expand_depth = 2\<rparr>"

definition demo_daemon :: "string DaemonWorld" where
  "demo_daemon =
     \<lparr>get_index_path = (\<lambda>n. if n = ''docs'' then Some ''/srv/docs''
                              else if n = ''broken'' then Some ''/srv/broken/.gundog''
                              else None),
      path_exists = (\<lambda>p. False),
      GundogConfig_load = (\<lambda>p. Inl (ExternalFailure ''no config'')),
      GundogConfig_minimal = demo_minimal_config,
      QueryEngine_new = (\<lambda>c. if storage_path c = ''/srv/broken/.gundog/index''
                              then Inl (ExternalFailure ''corrupt artifact'')
                              else Inr (storage_path c))\<rparr>"

subsection \<open>Specification-side definitions for the query engine\<close>

text \<open>
  The score that \<open>direct_entry\<close> stores, as a function of the raw score: the rescaled
  score with the code's \<open>round4\<close> applied. The properties below relate it to the
  specification's rounding \<open>is_round4\<close>.
\<close>

definition spec_score :: "rat \<Rightarrow> rat" where
  "spec_score raw = round4 (max 0 ((raw - 1/2) / (1 - 1/2)))"

text \<open>
  Rounding to four decimal places as the specification means it: \<open>y\<close> is \<open>x\<close> rounded when
  \<open>y\<close> is a multiple of \<open>1/10000\<close> at distance at most \<open>1/20000\<close> from \<open>x\<close>, the even
  multiple when two are that near.
\<close>

definition is_round4 :: "rat \<Rightarrow> rat \<Rightarrow> bool" where
  "is_round4 x y =
     (let n = \<lfloor>y * 10000\<rfloor>
      in y = of_int n / 10000
         \<and> \<bar>y - x\<bar> \<le> 1/20000
         \<and> (\<bar>y - x\<bar> = 1/20000 \<longrightarrow> even n))"

text \<open>
  The invariant of \<open>best_by_file\<close> during deduplication, over the results \<open>src\<close> being
  deduplicated: keys are pairwise different, every value is filed under the parent file of
  its own id, and every value carries the id and score of one of the results.
\<close>

definition keyed :: "Chunker \<Rightarrow> SearchResult list \<Rightarrow> (string \<times> SearchResult) list \<Rightarrow> bool" where
  "keyed ck src best = (distinct (map fst best) \<and>
     (\<forall>(k, b)\<in>set best. fst (parse_chunk_id ck (res_id b)) = k
        \<and> (\<exists>v\<in>set src. res_id v = res_id b \<and> score v = score b)))"

subsection \<open>A concrete query engine\<close>

text \<open>
  Modelled from the spec: \<open>chunk_text\<close> is missing. For the short texts used here the
  spec's chunker contract fixes its result: no chunk for the empty text, and otherwise one
  chunk with index \<open>0\<close> spanning the whole text.
\<close>

definition demo_chunker :: Chunker where
  "demo_chunker =
     \<lparr>chunk_text = (\<lambda>t mx ov. if t = [] then []
                      else [\<lparr>chunk_index = 0, chunk_body = t, start_char = 0, end_char = int (length t)\<rparr>]),
      make_chunk_id = spec_make_chunk_id,
      parse_chunk_id = spec_parse_chunk_id\<rparr>"

text \<open>
  An engine whose store answers every dense search with five hits (two of them chunks of
  the same file, one below the minimum score), with a BM25 index and a graph expansion.
  The two flags switch chunking and hybrid search.
\<close>

definition demo_hits :: "SearchResult list" where
  "demo_hits =
     [\<lparr>res_id = ''big.py#chunk_0'', score = 4/5, metadata = [''type'' \<mapsto> MStr ''code'']\<rparr>,
      \<lparr>res_id = ''big.py#chunk_2'', score = 3/4, metadata = [''type'' \<mapsto> MStr ''code'']\<rparr>,
      \<lparr>res_id = ''auth.py'', score = 7/10, metadata = [''type'' \<mapsto> MStr ''code'']\<rparr>,
      \<lparr>res_id = ''login.md'', score = 11/20, metadata = [''type'' \<mapsto> MStr ''docs'']\<rparr>,
      \<lparr>res_id = ''noise.md'', score = 2/5, metadata = [''type'' \<mapsto> MStr ''docs'']\<rparr>]"

definition demo_expanded :: "(string \<times> ExpandInfo) list" where
  "demo_expanded =
     [(''auth.py'', \<lparr>info_type = MStr ''code'', info_via = ''login.md'',
                    info_edge_weight = 9/10, info_depth = 1\<rparr>),
      (''session.py#chunk_1'', \<lparr>info_type = MStr ''code'', info_via = ''auth.py'',
                    info_edge_weight = 17/20, info_depth = 1\<rparr>),
      (''session.py#chunk_3'', \<lparr>info_type = MStr ''code'', info_via = ''big.py#chunk_0'',
                    info_edge_weight = 4/5, info_depth = 2\<rparr>),
      (''big.py#chunk_1'', \<lparr>info_type = MStr ''code'', info_via = ''auth.py'',
                    info_edge_weight = 19/20, info_depth = 1\<rparr>)]"

definition demo_engine :: "bool \<Rightarrow> bool \<Rightarrow> string QueryEngine" where
  "demo_engine chunking hybrid =
     \<lparr>config = (demo_minimal_config ''/srv/docs/.gundog/index'')
                 \<lparr>chunking_enabled := chunking, hybrid_enabled := hybrid\<rparr>,
      embed_text = (\<lambda>q. q),
      store_search = (\<lambda>v k. demo_hits),
      store_get = (\<lambda>i. None),
      bm25_is_empty = False,
      bm25_search = (\<lambda>q k. [(''login.md'', 3), (''noise.md'', 2), (''auth.py'', 1)]),
      graph_expand = (\<lambda>seeds w d. demo_expanded)\<rparr>"


text \<open>What the engine returns for the query \<open>login\<close> with \<open>top_k = 3\<close>.\<close>

definition demo_result :: QueryResult where
  "demo_result =
     \<lparr>query_text = ''login'',
      direct =
        [\<lparr>path = ''big.py'', entry_type = MStr ''code'', entry_score = 3/5, chunk = Some 0, lines = None\<rparr>,
         \<lparr>path = ''auth.py'', entry_type = MStr ''code'', entry_score = 2/5, chunk = None, lines = None\<rparr>,
         \<lparr>path = ''login.md'', entry_type = MStr ''docs'', entry_score = 1/10, chunk = None, lines = None\<rparr>],
      related =
        [\<lparr>rel_path = ''session.py'', rel_type = MStr ''code'', via = ''auth.py'',
          edge_weight = 17/20, depth = 1, rel_chunk = Some 1\<rparr>]\<rparr>"

definition demo_dup_result :: QueryResult where
  "demo_dup_result =
     \<lparr>query_text = ''login'',
      direct =
        [\<lparr>path = ''big.py'', entry_type = MStr ''code'', entry_score = 3/5, chunk = Some 0, lines = None\<rparr>,
         \<lparr>path = ''big.py'', entry_type = MStr ''code'', entry_score = 1/2, chunk = Some 2, lines = None\<rparr>,
         \<lparr>path = ''auth.py'', entry_type = MStr ''code'', entry_score = 2/5, chunk = None, lines = None\<rparr>],
      related =
        [\<lparr>rel_path = ''session.py'', rel_type = MStr ''code'', via = ''auth.py'',
          edge_weight = 17/20, depth = 1, rel_chunk = Some 1\<rparr>]\<rparr>"

text \<open>
  Engines without hybrid search, chunking or graph, whose store answers every dense search
  with a given list of whole-file hits: one list whose scores need rounding (up, on a tie
  to the even neighbour both ways) and the clamp at \<open>0\<close>, one with a score just above
  \<open>1\<close>, and what \<open>query\<close> returns for them.
\<close>

definition score_engine :: "SearchResult list \<Rightarrow> string QueryEngine" where
  "score_engine hits =
     \<lparr>config = demo_minimal_config ''idx'',
      embed_text = (\<lambda>q. q),
      store_search = (\<lambda>v k. hits),
      store_get = (\<lambda>i. None),
      bm25_is_empty = True,
      bm25_search = (\<lambda>q k. []),
      graph_expand = (\<lambda>seeds w d. [])\<rparr>"

definition hit :: "string \<Rightarrow> rat \<Rightarrow> SearchResult" where
  "hit i s = \<lparr>res_id = i, score = s, metadata = [''type'' \<mapsto> MStr ''docs'']\<rparr>"

definition entry :: "string \<Rightarrow> rat \<Rightarrow> DirectEntry" where
  "entry p s = \<lparr>path = p, entry_type = MStr ''docs'', entry_score = s, chunk = None, lines = None\<rparr>"

definition rounding_hits :: "SearchResult list" where
  "rounding_hits =
     [hit ''a.md'' (7/9), hit ''b.md'' (20003/40000), hit ''c.md'' (20001/40000),
      hit ''d.md'' (2/5)]"



definition rounding_result :: QueryResult where
  "rounding_result =
     \<lparr>query_text = ''q'',
      direct = [entry ''a.md'' (1389/2500), entry ''b.md'' (1/5000), entry ''c.md'' 0,
                entry ''d.md'' 0],
      related = []\<rparr>"




subsection \<open>Specification-side definitions for the indexer\<close>

text \<open>
  Selection as the specification words it: a file needs (re)indexing when \<open>rebuild\<close> is
  true, or the store holds no entry under its path (nor, with chunking enabled, under the id
  of its first chunk), or its current mtime differs from the stored one and its current
  content hash differs from the stored one. \<open>st\<close> is the store at the time of selection.
\<close>

definition spec_needs_reindex ::
  "('v, 'g, 'b) World \<Rightarrow> Chunker \<Rightarrow> GundogConfig \<Rightarrow> 'v Store \<Rightarrow> bool \<Rightarrow> string \<Rightarrow> bool" where
  "spec_needs_reindex w ck c st rebuild file_id =
     (rebuild
      \<or> (get st file_id = None
          \<and> (\<not> chunking_enabled c \<or> get st (make_chunk_id ck file_id 0) = None))
      \<or> (case stored_entry ck c st file_id of
            None \<Rightarrow> False
          | Some (v, meta) \<Rightarrow>
              \<not> (case stat_mtime w file_id of
                     None \<Rightarrow> False
                   | Some current_mtime \<Rightarrow> float_eq current_mtime (meta ''mtime''))
              \<and> map_option (\<lambda>text. MStr (hash_content w text)) (read_text w file_id)
                  \<noteq> meta ''content_hash''))"

text \<open>
  The rebuilds and saves of a pass, in the order of the source, for a given value of
  \<open>needs_rebuild\<close>.
\<close>

definition rebuild_effects :: "GundogConfig \<Rightarrow> bool \<Rightarrow> effect list" where
  "rebuild_effects c needs_rebuild =
     (if needs_rebuild then
        [GraphBuilt] @ (if hybrid_enabled c then [BM25Built] else [])
        @ [StoreSaved, GraphSaved] @ (if hybrid_enabled c then [BM25Saved] else [])
      else [])"

text \<open>
  An embed item that the loop over \<open>to_index\<close> makes for one of the files \<open>fs\<close>: its path
  is one of them and readable, and its id is the path or, with chunking enabled, the chunk
  id of a chunk that the chunker emits for the file's text.
\<close>

definition item_of ::
  "('v, 'g, 'b) World \<Rightarrow> Chunker \<Rightarrow> GundogConfig \<Rightarrow> (string \<times> string option) list \<Rightarrow> EmbedItem \<Rightarrow> bool" where
  "item_of w ck c fs it =
     (item_path it \<in> fst ` set fs \<and> read_text w (item_path it) \<noteq> None
      \<and> (if chunking_enabled c
          then \<exists>body ch. read_text w (item_path it) = Some body
                 \<and> ch \<in> set (chunk_text ck body (max_tokens c) (overlap_tokens c))
                 \<and> item_id it = make_chunk_id ck (item_path it) (chunk_index ch)
          else item_id it = item_path it))"

subsection \<open>A concrete indexing world\<close>

text \<open>
  Five files under one source root: a new one, one with unchanged mtime, one whose mtime
  changed but whose content hash did not, an edited one, and one that cannot be read as
  UTF-8. The store holds entries for three of them and for a file that has vanished. The
  hash is the identity, an embedding is the length of the text, and graph and BM25 index are
  represented by their id lists.
\<close>

definition demo_files :: "string \<rightharpoonup> File" where
  "demo_files =
     [''new.md'' \<mapsto> \<lparr>mtime = 10, content = Some ''hello''\<rparr>,
      ''same.md'' \<mapsto> \<lparr>mtime = 20, content = Some ''same''\<rparr>,
      ''touched.md'' \<mapsto> \<lparr>mtime = 31, content = Some ''abc''\<rparr>,
      ''edited.md'' \<mapsto> \<lparr>mtime = 41, content = Some ''xyz''\<rparr>,
      ''bin.dat'' \<mapsto> \<lparr>mtime = 50, content = None\<rparr>]"

definition demo_world :: "(string \<rightharpoonup> File) \<Rightarrow> (nat, string list, string list) World" where
  "demo_world fs =
     \<lparr>files = fs,
      root_exists = (\<lambda>p. p = ''/r''),
      glob = (\<lambda>root pattern. [''new.md'', ''same.md'', ''touched.md'', ''edited.md'',
                              ''bin.dat'', ''empty.py'']),
      fnmatch = (\<lambda>p pattern. False),
      get_exclusion_patterns = (\<lambda>t. []),
      sha256_16 = (\<lambda>text. text),
      embed_batch = (\<lambda>texts. Inr (map length texts)),
      graph_build = (\<lambda>vectors md threshold. map fst vectors),
      bm25_build = (\<lambda>documents. map fst documents)\<rparr>"

definition demo_index_config :: "bool \<Rightarrow> GundogConfig" where
  "demo_index_config chunking =
     (demo_minimal_config ''idx'')
       \<lparr>sources := [\<lparr>source_path = ''/r'', source_glob = ''*'', source_type = Some ''docs'',
                     source_exclude = [], exclusion_template = None\<rparr>],
        chunking_enabled := chunking\<rparr>"

definition demo_meta :: "rat \<Rightarrow> string \<Rightarrow> metadata" where
  "demo_meta m h = [''type'' \<mapsto> MStr ''docs'', ''mtime'' \<mapsto> MNum m, ''content_hash'' \<mapsto> MStr h]"

definition demo_indexer :: "nat Store \<Rightarrow> (nat, string list, string list) Indexer" where
  "demo_indexer st =
     \<lparr>store = st, graph = [], bm25 = [], disk_store = st, disk_graph = [], disk_bm25 = [],
      trace = []\<rparr>"

definition demo_store :: "nat Store" where
  "demo_store =
     [(''same.md'', 4, demo_meta 20 ''same''),
      (''touched.md'', 3, demo_meta 30 ''abc''),
      (''edited.md'', 3, demo_meta 40 ''old''),
      (''gone.md'', 7, demo_meta 5 ''gone'')]"

definition demo_summary :: Summary where
  "demo_summary = \<lparr>files_total = 5, files_indexed = 3, files_skipped = 2,
                    files_removed = 1, chunks_indexed = 2\<rparr>"

text \<open>Two smaller file systems: a single unreadable file, and a single empty file.\<close>

definition bin_only :: "string \<rightharpoonup> File" where
  "bin_only = [''bin.dat'' \<mapsto> \<lparr>mtime = 50, content = None\<rparr>]"

definition empty_only :: "string \<rightharpoonup> File" where
  "empty_only = [''empty.py'' \<mapsto> \<lparr>mtime = 1, content = Some []\<rparr>]"

definition all_effects :: "effect list" where
  "all_effects = [GraphBuilt, BM25Built, StoreSaved, GraphSaved, BM25Saved]"

definition one_selected :: Summary where
  "one_selected = \<lparr>files_total = 1, files_indexed = 1, files_skipped = 0,
                     files_removed = 0, chunks_indexed = 0\<rparr>"

definition nothing_found :: Summary where
  "nothing_found = \<lparr>files_total = 0, files_indexed = 0, files_skipped = 0,
                      files_removed = 0, chunks_indexed = 0\<rparr>"

text \<open>A file system with a single readable file, and the summaries of two passes over it.\<close>

definition readable_only :: "string \<rightharpoonup> File" where
  "readable_only = [''new.md'' \<mapsto> \<lparr>mtime = 1, content = Some ''hi''\<rparr>]"

definition one_stored :: Summary where
  "one_stored = \<lparr>files_total = 1, files_indexed = 1, files_skipped = 0,
                  files_removed = 0, chunks_indexed = 1\<rparr>"

definition one_skipped :: Summary where
  "one_skipped = \<lparr>files_total = 1, files_indexed = 0, files_skipped = 1,
                   files_removed = 0, chunks_indexed = 0\<rparr>"


subsection \<open>Properties of the index manager\<close>

lemma load_index_registered:
  "active_index (fst (load_index w m name)) = Some n \<Longrightarrow>
   active_index m = Some n \<or> get_index_path w n \<noteq> None"
  by (auto simp: load_index_def Let_def split: if_splits option.splits sum.splits)

lemma load_many_registered:
  "active_index (load_many w m ns) = Some n \<Longrightarrow>
   active_index m = Some n \<or> get_index_path w n \<noteq> None"
proof (induction ns arbitrary: m)
  case Nil
  then show ?case by simp
next
  case (Cons a ns)
  from Cons.IH [of "fst (load_index w m a)"] Cons.prems
  have "active_index (fst (load_index w m a)) = Some n \<or> get_index_path w n \<noteq> None"
    by simp
  then show ?case using load_index_registered [of w m a n] by blast
qed

lemma load_index_failure_keeps:
  "snd (load_index w m name) \<noteq> None \<Longrightarrow> fst (load_index w m name) = m"
  by (auto simp: load_index_def Let_def split: if_splits option.splits sum.splits)

lemma load_index_swap_after_construction:
  "engine (fst (load_index w m name)) \<noteq> engine m \<Longrightarrow>
   snd (load_index w m name) = None \<and>
   active_index (fst (load_index w m name)) = Some name \<and>
   (\<exists>c eng. QueryEngine_new w c = Inr eng \<and> engine (fst (load_index w m name)) = Some eng)"
  by (auto simp: load_index_def Let_def split: if_splits option.splits sum.splits)

text \<open>
  C8. A call of \<open>load_index\<close> with a name that is not in the registry, on a manager reached
  from the initial one by any sequence of earlier calls, raises the unknown-index
  \<open>ValueError\<close>. Whenever a call raises (unknown name, or an error while the configuration
  is loaded or the engine is constructed), the manager is exactly what it was: \<open>engine\<close> and
  \<open>active_index\<close> keep their values. The engine changes only in a call that returns
  normally, to an engine that the constructor returned.
\<close>

theorem load_index_fail_safe:
  fixes w :: "'e DaemonWorld"
  shows "(get_index_path w name = None \<longrightarrow>
            load_index w (load_many w IndexManager_init ns) name =
              (load_many w IndexManager_init ns, Some (ValueError (''Unknown index: '' @ name))))
       \<and> (snd (load_index w m name) \<noteq> None \<longrightarrow>
            fst (load_index w m name) = m
          \<and> engine (fst (load_index w m name)) = engine m
          \<and> active_index (fst (load_index w m name)) = active_index m)
       \<and> (engine (fst (load_index w m name)) \<noteq> engine m \<longrightarrow>
            snd (load_index w m name) = None
          \<and> active_index (fst (load_index w m name)) = Some name
          \<and> (\<exists>c eng. QueryEngine_new w c = Inr eng
                \<and> engine (fst (load_index w m name)) = Some eng))"
proof (intro conjI impI)
  assume unk: "get_index_path w name = None"
  have "active_index (load_many w IndexManager_init ns) \<noteq> Some name"
    using load_many_registered [of w IndexManager_init ns name] unk
    by (auto simp: IndexManager_init_def)
  then show "load_index w (load_many w IndexManager_init ns) name =
      (load_many w IndexManager_init ns, Some (ValueError (''Unknown index: '' @ name)))"
    using unk by (simp add: load_index_def)
next
  assume "snd (load_index w m name) \<noteq> None"
  then show "fst (load_index w m name) = m" by (rule load_index_failure_keeps)
next
  assume "snd (load_index w m name) \<noteq> None"
  then show "engine (fst (load_index w m name)) = engine m"
    by (simp add: load_index_failure_keeps)
next
  assume "snd (load_index w m name) \<noteq> None"
  then show "active_index (fst (load_index w m name)) = active_index m"
    by (simp add: load_index_failure_keeps)
next
  assume "engine (fst (load_index w m name)) \<noteq> engine m"
  then show "snd (load_index w m name) = None"
    using load_index_swap_after_construction by blast
next
  assume "engine (fst (load_index w m name)) \<noteq> engine m"
  then show "active_index (fst (load_index w m name)) = Some name"
    using load_index_swap_after_construction by blast
next
  assume "engine (fst (load_index w m name)) \<noteq> engine m"
  then show "\<exists>c eng. QueryEngine_new w c = Inr eng
      \<and> engine (fst (load_index w m name)) = Some eng"
    using load_index_swap_after_construction by blast
qed

lemma demo_load_docs:
  "load_index demo_daemon IndexManager_init ''docs'' =
     (\<lparr>engine = Some ''/srv/docs/.gundog/index'', active_index = Some ''docs''\<rparr>, None)"
  by code_simp

lemma demo_load_broken:
  "load_index demo_daemon \<lparr>engine = Some ''/srv/docs/.gundog/index'', active_index = Some ''docs''\<rparr>
     ''broken'' =
     (\<lparr>engine = Some ''/srv/docs/.gundog/index'', active_index = Some ''docs''\<rparr>,
      Some (ExternalFailure ''corrupt artifact''))"
  by code_simp

theorem load_index_fail_safe_witness:
  "get_index_path demo_daemon ''nope'' = None
   \<and> load_index demo_daemon (load_many demo_daemon IndexManager_init [''docs'']) ''nope'' =
       (load_many demo_daemon IndexManager_init [''docs''],
        Some (ValueError (''Unknown index: '' @ ''nope'')))
   \<and> snd (load_index demo_daemon
           \<lparr>engine = Some ''/srv/docs/.gundog/index'', active_index = Some ''docs''\<rparr> ''broken'') \<noteq> None
   \<and> fst (load_index demo_daemon
           \<lparr>engine = Some ''/srv/docs/.gundog/index'', active_index = Some ''docs''\<rparr> ''broken'') =
       \<lparr>engine = Some ''/srv/docs/.gundog/index'', active_index = Some ''docs''\<rparr>
   \<and> engine (fst (load_index demo_daemon IndexManager_init ''docs'')) \<noteq> engine IndexManager_init
   \<and> snd (load_index demo_daemon IndexManager_init ''docs'') = None
   \<and> active_index (fst (load_index demo_daemon IndexManager_init ''docs'')) = Some ''docs''"
proof -
  have unk: "get_index_path demo_daemon ''nope'' = None"
    by (simp add: demo_daemon_def)
  have fails: "snd (load_index demo_daemon
      \<lparr>engine = Some ''/srv/docs/.gundog/index'', active_index = Some ''docs''\<rparr> ''broken'') \<noteq> None"
    by (simp add: demo_load_broken)
  have swaps: "engine (fst (load_index demo_daemon IndexManager_init ''docs''))
      \<noteq> engine IndexManager_init"
    by (simp add: demo_load_docs) (simp add: IndexManager_init_def)
  note a = load_index_fail_safe [of demo_daemon "''nope''" "[''docs'']"
      "\<lparr>engine = Some ''/srv/docs/.gundog/index'', active_index = Some ''docs''\<rparr>"]
  note b = load_index_fail_safe [of demo_daemon "''broken''" "[]"
      "\<lparr>engine = Some ''/srv/docs/.gundog/index'', active_index = Some ''docs''\<rparr>"]
  note c = load_index_fail_safe [of demo_daemon "''docs''" "[]" IndexManager_init]
  from a unk have 1: "load_index demo_daemon (load_many demo_daemon IndexManager_init [''docs'']) ''nope'' =
       (load_many demo_daemon IndexManager_init [''docs''],
        Some (ValueError (''Unknown index: '' @ ''nope'')))" by blast
  from b fails have 2: "fst (load_index demo_daemon
           \<lparr>engine = Some ''/srv/docs/.gundog/index'', active_index = Some ''docs''\<rparr> ''broken'') =
       \<lparr>engine = Some ''/srv/docs/.gundog/index'', active_index = Some ''docs''\<rparr>" by blast
  from c swaps have 3: "snd (load_index demo_daemon IndexManager_init ''docs'') = None"
    and 4: "active_index (fst (load_index demo_daemon IndexManager_init ''docs'')) = Some ''docs''"
    by blast+
  from unk 1 fails 2 swaps 3 4 show ?thesis by blast
qed

section \<open>Properties of the query engine\<close>


subsection \<open>Fusion keeps the cosine score of a dense result\<close>

lemma fuse_vector_keys:
  "fuse_vector vw rank rs (rrf, vs, mm) = (rrf', vs', mm') \<Longrightarrow>
   fst ` set rrf' = fst ` set rrf \<union> res_id ` set rs"
  by (induction rs arbitrary: rank rrf vs mm) (auto simp: dom_update)

lemma fuse_vector_scores:
  "fuse_vector vw rank rs (rrf, vs, mm) = (rrf', vs', mm') \<Longrightarrow> vs' k = Some s \<Longrightarrow>
   vs k = Some s \<or> (\<exists>r\<in>set rs. res_id r = k \<and> score r = s)"
proof (induction rs arbitrary: rank rrf vs mm)
  case Nil
  then show ?case by simp
next
  case (Cons r rs)
  from Cons.prems(1) have
    "fuse_vector vw (Suc rank) rs
       (AList.update (res_id r) (rrf_get rrf (res_id r) + vw / (60 + of_nat rank)) rrf,
        vs(res_id r \<mapsto> score r), mm(res_id r \<mapsto> metadata r)) = (rrf', vs', mm')"
    by simp
  from Cons.IH [OF this Cons.prems(2)] show ?case
    by (auto split: if_splits)
qed

lemma fuse_vector_defined:
  "fuse_vector vw rank rs (rrf, vs, mm) = (rrf', vs', mm') \<Longrightarrow>
   vs k \<noteq> None \<or> k \<in> res_id ` set rs \<Longrightarrow> vs' k \<noteq> None"
proof (induction rs arbitrary: rank rrf vs mm)
  case Nil
  then show ?case by simp
next
  case (Cons r rs)
  from Cons.prems(1) have step:
    "fuse_vector vw (Suc rank) rs
       (AList.update (res_id r) (rrf_get rrf (res_id r) + vw / (60 + of_nat rank)) rrf,
        vs(res_id r \<mapsto> score r), mm(res_id r \<mapsto> metadata r)) = (rrf', vs', mm')"
    by simp
  have "(vs(res_id r \<mapsto> score r)) k \<noteq> None \<or> k \<in> res_id ` set rs"
    using Cons.prems(2) by auto
  from Cons.IH [OF step this] show ?case .
qed

lemma fuse_bm25_keys:
  "fuse_bm25 lookup bw rank bm (rrf, mm) = (rrf', mm') \<Longrightarrow>
   fst ` set rrf' = fst ` set rrf \<union> fst ` set bm"
proof (induction bm arbitrary: rank rrf mm)
  case Nil
  then show ?case by simp
next
  case (Cons a bm)
  obtain doc_id s where a: "a = (doc_id, s)" by (cases a)
  from Cons.prems a obtain mm2 where
    "fuse_bm25 lookup bw (Suc rank) bm
       (AList.update doc_id (rrf_get rrf doc_id + bw / (60 + of_nat rank)) rrf, mm2) = (rrf', mm')"
    by simp
  from Cons.IH [OF this] a show ?case
    by (simp add: dom_update)
qed

lemma set_slice_to: "set (slice_to k xs) \<subseteq> set xs"
  by (auto simp: slice_to_def dest: in_set_takeD)

lemma set_sort_desc [simp]: "set (sort_desc f xs) = set xs"
  by (simp add: sort_desc_def)

lemma valid_bm25_ids: "fst ` set (valid_bm25 vr bm) \<subseteq> res_id ` set vr"
  by (auto simp: valid_bm25_def)

lemma fuse_results_scores:
  assumes "r \<in> set (fuse_results e vr bm k)" and "fst ` set bm \<subseteq> res_id ` set vr"
  shows "\<exists>v\<in>set vr. res_id v = res_id r \<and> score v = score r"
proof -
  obtain rrf1 vs mm1 where fv:
    "fuse_vector (vector_weight (config e)) 0 vr ([], Map.empty, Map.empty) = (rrf1, vs, mm1)"
    by (metis prod_cases3)
  obtain rrf mm where fb:
    "fuse_bm25 (store_get e) (bm25_weight (config e)) 0 bm (rrf1, mm1) = (rrf, mm)"
    by (metis surj_pair)
  from fuse_vector_keys [OF fv] have k1: "fst ` set rrf1 = res_id ` set vr" by simp
  from fuse_bm25_keys [OF fb] k1 assms(2) have k2: "fst ` set rrf = res_id ` set vr" by auto
  from assms(1) fv fb obtain doc_id where
    d: "doc_id \<in> set (slice_to k (sort_desc (rrf_get rrf) (map fst rrf)))"
    and r: "res_id r = doc_id" "score r = (case vs doc_id of None \<Rightarrow> 0 | Some x \<Rightarrow> x)"
    by (auto simp: fuse_results_def Let_def)
  from d set_slice_to have "doc_id \<in> fst ` set rrf" by fastforce
  with k2 have in_vr: "doc_id \<in> res_id ` set vr" by simp
  from fuse_vector_defined [OF fv, of doc_id] in_vr obtain s where s: "vs doc_id = Some s"
    by auto
  from fuse_vector_scores [OF fv s] have "\<exists>v\<in>set vr. res_id v = doc_id \<and> score v = s"
    by simp
  with r s show ?thesis by auto
qed

lemma hybrid_search_scores:
  assumes "r \<in> set (hybrid_search e q top_k min_score)"
  shows "\<exists>v\<in>set (dense_results e q top_k min_score). res_id v = res_id r \<and> score v = score r"
proof (cases "hybrid_enabled (config e) \<and> \<not> bm25_is_empty e")
  case True
  with assms have "dense_results e q top_k min_score \<noteq> []"
    and "r \<in> set (fuse_results e (dense_results e q top_k min_score)
           (valid_bm25 (dense_results e q top_k min_score) (bm25_search e q (top_k * 2)))
           (top_k * 2))"
    by (auto simp: hybrid_search_def Let_def split: if_splits)
  then show ?thesis
    using fuse_results_scores valid_bm25_ids by blast
next
  case False
  with assms show ?thesis by (auto simp: hybrid_search_def Let_def)
qed

lemma set_update_subset: "set (AList.update k v al) \<subseteq> insert (k, v) (set al)"
  by (induction al) auto

lemma keyed_update:
  assumes "keyed ck src best" "fst (parse_chunk_id ck (res_id b)) = k"
    "\<exists>v\<in>set src. res_id v = res_id b \<and> score v = score b"
  shows "keyed ck src (AList.update k b best)"
  unfolding keyed_def
proof (intro conjI ballI)
  show "distinct (map fst (AList.update k b best))"
    using assms(1) by (simp add: keyed_def distinct_update)
next
  fix x assume "x \<in> set (AList.update k b best)"
  with set_update_subset have "x = (k, b) \<or> x \<in> set best" by fastforce
  then show "case x of (k, b) \<Rightarrow> fst (parse_chunk_id ck (res_id b)) = k
        \<and> (\<exists>v\<in>set src. res_id v = res_id b \<and> score v = score b)"
    using assms by (auto simp: keyed_def)
qed

lemma dedup_loop_keyed:
  "keyed ck src best \<Longrightarrow> set rs \<subseteq> set src \<Longrightarrow> keyed ck src (dedup_loop ck rs best)"
proof (induction rs arbitrary: best)
  case Nil
  then show ?case by simp
next
  case (Cons r rs)
  obtain parent_file chunk_idx where p: "parse_chunk_id ck (res_id r) = (parent_file, chunk_idx)"
    by (cases "parse_chunk_id ck (res_id r)")
  define r' where "r' = (case chunk_idx of None \<Rightarrow> r
     | Some i \<Rightarrow> r\<lparr>metadata := (metadata r)(''_chunk_index'' \<mapsto> MInt i,
                                ''_parent_file'' \<mapsto> MStr parent_file)\<rparr>)"
  have r': "res_id r' = res_id r" "score r' = score r"
    by (simp_all add: r'_def split: option.splits)
  from Cons.prems have rs: "set rs \<subseteq> set src" and r: "r \<in> set src" by auto
  have "keyed ck src (AList.update parent_file r' best)"
    using keyed_update [OF Cons.prems(1), of r' parent_file] r' p r by auto
  from Cons.IH [OF this rs] Cons.IH [OF Cons.prems(1) rs] p show ?case
    by (simp add: r'_def)
qed

lemma keyed_paths:
  "keyed ck src best \<Longrightarrow>
   map (\<lambda>r. fst (parse_chunk_id ck (res_id r))) (map snd best) = map fst best"
  by (auto simp: keyed_def)

lemma deduplicate_chunks_scores:
  assumes "r \<in> set (deduplicate_chunks ck e rs)"
  shows "\<exists>v\<in>set rs. res_id v = res_id r \<and> score v = score r"
proof (cases "chunking_enabled (config e)")
  case True
  have "keyed ck rs (dedup_loop ck rs [])"
    by (rule dedup_loop_keyed) (simp_all add: keyed_def)
  with assms True show ?thesis
    by (fastforce simp: deduplicate_chunks_def keyed_def)
next
  case False
  with assms show ?thesis by (auto simp: deduplicate_chunks_def)
qed

lemma deduplicate_chunks_distinct:
  assumes "chunking_enabled (config e)"
  shows "distinct (map (\<lambda>r. fst (parse_chunk_id ck (res_id r))) (deduplicate_chunks ck e rs))"
proof -
  have k: "keyed ck rs (dedup_loop ck rs [])"
    by (rule dedup_loop_keyed) (simp_all add: keyed_def)
  from k have "distinct (map fst (dedup_loop ck rs []))" by (simp add: keyed_def)
  with keyed_paths [OF k] assms show ?thesis
    by (simp only: deduplicate_chunks_def if_False not_True_eq_False simp_thms)
qed

lemma distinct_map_slice_to:
  "distinct (map f xs) \<Longrightarrow> distinct (map f (slice_to k xs))"
  by (simp add: slice_to_def take_map [symmetric])

lemma distinct_map_sort_desc:
  "distinct (map f xs) \<Longrightarrow> distinct (map f (sort_desc g xs))"
  by (simp add: sort_desc_def distinct_map)

lemma direct_hits_distinct:
  assumes "chunking_enabled (config e)"
  shows "distinct (map (\<lambda>r. fst (parse_chunk_id ck (res_id r)))
           (direct_hits ck e q top_k type_filter min_score))"
  unfolding direct_hits_def Let_def
  by (intro distinct_map_slice_to distinct_map_sort_desc)
     (simp add: distinct_map_filter deduplicate_chunks_distinct [OF assms])

lemma direct_hits_scores:
  assumes "r \<in> set (direct_hits ck e q top_k type_filter min_score)"
  shows "\<exists>v\<in>set (dense_results e q top_k min_score). res_id v = res_id r \<and> score v = score r"
proof -
  from assms set_slice_to have
    "r \<in> set (deduplicate_chunks ck e (hybrid_search e q top_k min_score))"
    by (fastforce simp: direct_hits_def Let_def split: if_splits)
  from deduplicate_chunks_scores [OF this] hybrid_search_scores show ?thesis
    by metis
qed

subsection \<open>Formatting, rescaling and rounding\<close>

lemma rescale_score_half:
  "rescale_score raw (1/2) = Inr (max 0 ((raw - 1/2) / (1 - 1/2)))"
  by (simp add: rescale_score_def max_def)

lemma direct_entry_fields:
  assumes "direct_entry ck r = Inr d"
  shows "path d = fst (parse_chunk_id ck (res_id r))"
    and "chunk d = snd (parse_chunk_id ck (res_id r))"
    and "entry_score d = spec_score (score r)"
  using assms
  by (auto simp: direct_entry_def rescale_score_half spec_score_def Let_def
      split: prod.splits if_splits option.splits)

lemma format_direct_all2:
  "format_direct ck rs = Inr ds \<Longrightarrow> list_all2 (\<lambda>r d. direct_entry ck r = Inr d) rs ds"
  by (induction rs arbitrary: ds) (auto split: sum.splits)











lemma related_loop_paths:
  "distinct (map rel_path (related_loop ck tf ids dpf xs seen))
   \<and> set (map rel_path (related_loop ck tf ids dpf xs seen)) \<inter> (set dpf \<union> set seen) = {}"
proof (induction xs arbitrary: seen)
  case Nil
  then show ?case by simp
next
  case (Cons x xs)
  obtain node_id info where x: "x = (node_id, info)" by (cases x)
  obtain parent_file chunk_idx where p: "parse_chunk_id ck node_id = (parent_file, chunk_idx)"
    by (cases "parse_chunk_id ck node_id")
  from Cons.IH [of seen] Cons.IH [of "parent_file # seen"] show ?case
    by (auto simp: x p)
qed

lemma related_results_paths:
  "distinct (map rel_path (related_results ck e expand expand_depth tf rs))
   \<and> set (map rel_path (related_results ck e expand expand_depth tf rs))
       \<inter> set (map (\<lambda>r. fst (parse_chunk_id ck (res_id r))) rs) = {}"
proof (cases "expand \<and> rs \<noteq> []")
  case True
  define xs where "xs = related_loop ck tf (map res_id rs)
     (map (\<lambda>sid. fst (parse_chunk_id ck sid)) (map res_id rs))
     (graph_expand e (map res_id rs) (expand_threshold (config e))
        (effective_depth (config e) expand_depth)) []"
  have r: "related_results ck e expand expand_depth tf rs = sort_desc edge_weight xs"
    using True by (simp add: related_results_def xs_def Let_def)
  have "distinct (map rel_path xs)
     \<and> set (map rel_path xs) \<inter> set (map (\<lambda>sid. fst (parse_chunk_id ck sid)) (map res_id rs)) = {}"
    unfolding xs_def using related_loop_paths by fastforce
  then show ?thesis
    unfolding r by (simp add: distinct_map_sort_desc comp_def)
next
  case False
  then show ?thesis by (auto simp: related_results_def)
qed

subsection \<open>The concrete engine, evaluated\<close>

lemma demo_query: "query demo_chunker (demo_engine True True) ''login'' 3 True None None (1/2) = Inr demo_result"
  by code_simp

text \<open>
  C4. Whenever hybrid fusion runs (hybrid search enabled, BM25 index not empty, at least one
  dense result with score at least \<open>min_score\<close>), the search results are the fusion of the
  dense results with the BM25 hits whose id is among those dense results, and every fused
  result carries the id and the cosine score of a dense result: the RRF value orders the
  results and is never reported.
\<close>

theorem hybrid_fusion_restricted_cosine:
  assumes "hybrid_enabled (config e)" and "\<not> bm25_is_empty e"
    and "dense_results e q top_k min_score \<noteq> []"
  shows "hybrid_search e q top_k min_score =
           fuse_results e (dense_results e q top_k min_score)
             (valid_bm25 (dense_results e q top_k min_score) (bm25_search e q (top_k * 2)))
             (top_k * 2)
       \<and> set (valid_bm25 (dense_results e q top_k min_score) (bm25_search e q (top_k * 2))) =
           {(doc_id, s). (doc_id, s) \<in> set (bm25_search e q (top_k * 2))
              \<and> doc_id \<in> res_id ` set (dense_results e q top_k min_score)}
       \<and> (\<forall>v\<in>set (dense_results e q top_k min_score). min_score \<le> score v)
       \<and> (\<forall>r\<in>set (hybrid_search e q top_k min_score).
            \<exists>v\<in>set (dense_results e q top_k min_score). res_id v = res_id r \<and> score v = score r)"
proof (intro conjI)
  show "hybrid_search e q top_k min_score =
           fuse_results e (dense_results e q top_k min_score)
             (valid_bm25 (dense_results e q top_k min_score) (bm25_search e q (top_k * 2)))
             (top_k * 2)"
    using assms by (simp add: hybrid_search_def Let_def)
  show "set (valid_bm25 (dense_results e q top_k min_score) (bm25_search e q (top_k * 2))) =
           {(doc_id, s). (doc_id, s) \<in> set (bm25_search e q (top_k * 2))
              \<and> doc_id \<in> res_id ` set (dense_results e q top_k min_score)}"
    by (auto simp: valid_bm25_def)
  show "\<forall>v\<in>set (dense_results e q top_k min_score). min_score \<le> score v"
    by (simp add: dense_results_def)
  show "\<forall>r\<in>set (hybrid_search e q top_k min_score).
            \<exists>v\<in>set (dense_results e q top_k min_score). res_id v = res_id r \<and> score v = score r"
    using hybrid_search_scores by blast
qed

lemma demo_dense_nonempty: "dense_results (demo_engine True True) ''login'' 3 (1/2) \<noteq> []"
  by (simp add: dense_results_def demo_engine_def demo_hits_def)

theorem hybrid_fusion_restricted_cosine_witness:
  "hybrid_enabled (config (demo_engine True True))
   \<and> \<not> bm25_is_empty (demo_engine True True)
   \<and> dense_results (demo_engine True True) ''login'' 3 (1/2) \<noteq> []
   \<and> hybrid_search (demo_engine True True) ''login'' 3 (1/2) =
       fuse_results (demo_engine True True) (dense_results (demo_engine True True) ''login'' 3 (1/2))
         (valid_bm25 (dense_results (demo_engine True True) ''login'' 3 (1/2))
            (bm25_search (demo_engine True True) ''login'' (3 * 2)))
         (3 * 2)"
proof -
  have h1: "hybrid_enabled (config (demo_engine True True))"
    by (simp add: demo_engine_def)
  have h2: "\<not> bm25_is_empty (demo_engine True True)"
    by (simp add: demo_engine_def)
  note h3 = demo_dense_nonempty
  from hybrid_fusion_restricted_cosine [OF h1 h2 h3] h1 h2 h3 show ?thesis by blast
qed

text \<open>
  C5, as amended. In every result of \<open>query\<close>: if chunking is enabled in the engine's
  configuration, or the search results entering deduplication already have pairwise
  different parent files, then no two direct entries share a path; and in every case no two
  related entries share a path and no related entry's path is the path of a direct entry.
\<close>

theorem query_dedup_paths:
  assumes "query ck e q top_k expand expand_depth type_filter min_score = Inr res"
  shows "((chunking_enabled (config e)
           \<or> distinct (map (\<lambda>r. fst (parse_chunk_id ck (res_id r)))
                  (hybrid_search e q top_k min_score)))
          \<longrightarrow> distinct (map path (direct res)))
       \<and> distinct (map rel_path (related res))
       \<and> set (map rel_path (related res)) \<inter> set (map path (direct res)) = {}"
proof -
  let ?hits = "direct_hits ck e q top_k type_filter min_score"
  let ?parent = "\<lambda>r. fst (parse_chunk_id ck (res_id r))"
  from assms have fd: "format_direct ck ?hits = Inr (direct res)"
    and rel: "related res = related_results ck e expand expand_depth type_filter ?hits"
    by (auto simp: query_def Let_def split: sum.splits)
  from format_direct_all2 [OF fd] have
    "list_all2 (\<lambda>r d. path d = ?parent r) ?hits (direct res)"
    by (rule list_all2_mono) (simp add: direct_entry_fields)
  then have paths: "map path (direct res) = map ?parent ?hits"
    by (induction rule: list_all2_induct) simp_all
  have "distinct (map ?parent ?hits)"
    if "chunking_enabled (config e) \<or> distinct (map ?parent (hybrid_search e q top_k min_score))"
  proof (cases "chunking_enabled (config e)")
    case True
    then show ?thesis by (rule direct_hits_distinct)
  next
    case False
    with that have "distinct (map ?parent (deduplicate_chunks ck e (hybrid_search e q top_k min_score)))"
      by (simp add: deduplicate_chunks_def)
    then show ?thesis
      unfolding direct_hits_def Let_def
      by (intro distinct_map_slice_to distinct_map_sort_desc) (simp add: distinct_map_filter)
  qed
  with related_results_paths [of ck e expand expand_depth type_filter ?hits] show ?thesis
    unfolding paths rel by blast
qed

lemma demo_query_plain:
  "query demo_chunker (demo_engine False False) ''login'' 3 True None None (1/2) = Inr demo_dup_result"
  by code_simp

text \<open>
  C5 as stated fails when chunking is disabled in the engine's configuration while the store
  holds chunks: \<open>_deduplicate_chunks\<close> then returns its input, and two chunks of \<open>big.py\<close>
  become two direct entries with the same path.
\<close>

theorem query_dedup_paths_counterexample:
  "query demo_chunker (demo_engine False False) ''login'' 3 True None None (1/2) = Inr demo_dup_result
   \<and> \<not> distinct (map path (direct demo_dup_result))"
  by (simp add: demo_query_plain) (simp add: demo_dup_result_def)

theorem query_dedup_paths_witness:
  "query demo_chunker (demo_engine True True) ''login'' 3 True None None (1/2) = Inr demo_result
   \<and> chunking_enabled (config (demo_engine True True))
   \<and> distinct (map path (direct demo_result))
   \<and> distinct (map rel_path (related demo_result))
   \<and> set (map rel_path (related demo_result)) \<inter> set (map path (direct demo_result)) = {}"
proof -
  have c: "chunking_enabled (config (demo_engine True True))"
    by (simp add: demo_engine_def)
  from query_dedup_paths [OF demo_query] c demo_query show ?thesis by blast
qed

subsection \<open>Rounding to four decimal places, and the range of direct scores\<close>

lemma round_half_even_bounds:
  "\<bar>of_int (round_half_even x) - x\<bar> \<le> 1/2"
  "\<bar>of_int (round_half_even x) - x\<bar> = 1/2 \<Longrightarrow> even (round_half_even x)"
proof -
  define f where "f = \<lfloor>x\<rfloor>"
  define d where "d = x - of_int f"
  have d: "0 \<le> d" "d < 1" unfolding d_def f_def by linarith+
  have x: "x = of_int f + d" by (simp add: d_def)
  consider "d < 1/2" | "1/2 < d" | "d = 1/2" "even f" | "d = 1/2" "odd f" by fastforce
  then have "\<bar>of_int (round_half_even x) - x\<bar> \<le> 1/2
      \<and> (\<bar>of_int (round_half_even x) - x\<bar> = 1/2 \<longrightarrow> even (round_half_even x))"
  proof cases
    case 1
    then have "round_half_even x = f" by (simp add: round_half_even_def f_def d_def Let_def)
    with 1 d x show ?thesis by simp
  next
    case 2
    then have "round_half_even x = f + 1" by (simp add: round_half_even_def f_def d_def Let_def)
    with 2 d x show ?thesis by simp
  next
    case 3
    then have "round_half_even x = f" by (simp add: round_half_even_def f_def d_def Let_def)
    with 3 d x show ?thesis by simp
  next
    case 4
    then have "round_half_even x = f + 1" by (simp add: round_half_even_def f_def d_def Let_def)
    with 4 d x show ?thesis by simp
  qed
  then show "\<bar>of_int (round_half_even x) - x\<bar> \<le> 1/2"
    and "\<bar>of_int (round_half_even x) - x\<bar> = 1/2 \<Longrightarrow> even (round_half_even x)"
    by blast+
qed

lemma round4_is_round4: "is_round4 x (round4 x)"
proof -
  define n where "n = round_half_even (x * 10000)"
  have y: "round4 x = of_int n / 10000" by (simp add: round4_def n_def)
  have fl: "\<lfloor>round4 x * 10000\<rfloor> = n" by (simp add: y)
  have diff: "\<bar>round4 x - x\<bar> = \<bar>of_int n - x * 10000\<bar> / 10000"
  proof -
    have "round4 x - x = (of_int n - x * 10000) / 10000" by (simp add: y field_simps)
    then have "\<bar>round4 x - x\<bar> = \<bar>(of_int n - x * 10000) / 10000\<bar>" by (rule arg_cong)
    then show ?thesis by (simp only: abs_divide abs_numeral)
  qed
  from round_half_even_bounds [of "x * 10000"]
  have b: "\<bar>of_int n - x * 10000\<bar> \<le> 1/2"
    and t: "\<bar>of_int n - x * 10000\<bar> = 1/2 \<Longrightarrow> even n"
    by (simp_all add: n_def)
  from b have "\<bar>round4 x - x\<bar> \<le> 1/20000" unfolding diff by simp
  moreover have "even n" if "\<bar>round4 x - x\<bar> = 1/20000"
  proof -
    from that have "\<bar>of_int n - x * 10000\<bar> = 1/2" unfolding diff by simp
    then show ?thesis by (rule t)
  qed
  ultimately show ?thesis
    unfolding is_round4_def Let_def fl using y by blast
qed

lemma is_round4_unique:
  assumes "is_round4 x y" shows "y = round4 x"
proof -
  define n where "n = \<lfloor>y * 10000\<rfloor>"
  define m where "m = round_half_even (x * 10000)"
  define X where "X = x * 10000"
  from assms have y: "y = of_int n / 10000" and b: "\<bar>y - x\<bar> \<le> 1/20000"
    and t: "\<bar>y - x\<bar> = 1/20000 \<Longrightarrow> even n"
    by (simp_all add: is_round4_def Let_def n_def)
  have diff: "\<bar>y - x\<bar> = \<bar>of_int n - X\<bar> / 10000"
  proof -
    have "y - x = (of_int n - X) / 10000" by (simp add: y X_def field_simps)
    then have "\<bar>y - x\<bar> = \<bar>(of_int n - X) / 10000\<bar>" by (rule arg_cong)
    then show ?thesis by (simp only: abs_divide abs_numeral)
  qed
  from b have nb: "\<bar>of_int n - X\<bar> \<le> 1/2" unfolding diff by simp
  have nt: "even n" if "\<bar>of_int n - X\<bar> = 1/2"
    using that t unfolding diff by simp
  from round_half_even_bounds [of X]
  have mb: "\<bar>of_int m - X\<bar> \<le> 1/2" and mt: "\<bar>of_int m - X\<bar> = 1/2 \<Longrightarrow> even m"
    by (simp_all add: m_def X_def)
  have "n = m"
  proof (rule ccontr)
    assume ne: "n \<noteq> m"
    from nb mb have "\<bar>(of_int n :: rat) - of_int m\<bar> \<le> 1" by linarith
    then have "\<bar>n - m\<bar> \<le> 1" by (metis of_int_diff of_int_abs of_int_le_1_iff)
    with ne have adj: "n = m + 1 \<or> m = n + 1" by linarith
    from adj have "(of_int n :: rat) = of_int m + 1 \<or> (of_int m :: rat) = of_int n + 1"
      by auto
    with nb mb have "\<bar>of_int n - X\<bar> = 1/2" "\<bar>of_int m - X\<bar> = 1/2" by linarith+
    with nt mt have "even n" "even m" by blast+
    with adj show False by auto
  qed
  then show ?thesis by (simp add: y round4_def m_def X_def)
qed



lemma spec_score_is_round4: "is_round4 (max 0 ((a - 1/2) / (1 - 1/2))) (spec_score a)"
  unfolding spec_score_def by (rule round4_is_round4)

text \<open>
  C6. In every result of \<open>query\<close>, the direct entries are, one for one and in order, the
  ranked hits; each entry's score is \<open>max(0, (raw - 0.5) / (1 - 0.5))\<close> of the hit's raw
  score rounded to four decimal places (a multiple of \<open>1/10000\<close> within \<open>1/20000\<close> of that
  value, the even one on a tie), and that raw score is the cosine similarity of the dense
  result with the same id.
\<close>

theorem direct_scores_rescaled:
  assumes "query ck e q top_k expand expand_depth type_filter min_score = Inr res"
  shows "list_all2
           (\<lambda>r d. path d = fst (parse_chunk_id ck (res_id r))
                 \<and> is_round4 (max 0 ((score r - 1/2) / (1 - 1/2))) (entry_score d)
                 \<and> (\<exists>v\<in>set (dense_results e q top_k min_score).
                       res_id v = res_id r \<and> score v = score r))
           (direct_hits ck e q top_k type_filter min_score) (direct res)"
proof -
  from assms have "format_direct ck (direct_hits ck e q top_k type_filter min_score) = Inr (direct res)"
    by (auto simp: query_def Let_def split: sum.splits)
  from format_direct_all2 [OF this] show ?thesis
  proof (rule list.rel_mono_strong)
    fix r d
    assume r: "r \<in> set (direct_hits ck e q top_k type_filter min_score)"
      and "d \<in> set (direct res)"
      and d: "direct_entry ck r = Inr d"
    from direct_entry_fields [OF d] spec_score_is_round4 [of "score r"]
    have "path d = fst (parse_chunk_id ck (res_id r))"
      and "is_round4 (max 0 ((score r - 1/2) / (1 - 1/2))) (entry_score d)"
      by simp_all
    with direct_hits_scores [OF r]
    show "path d = fst (parse_chunk_id ck (res_id r))
                 \<and> is_round4 (max 0 ((score r - 1/2) / (1 - 1/2))) (entry_score d)
                 \<and> (\<exists>v\<in>set (dense_results e q top_k min_score).
                       res_id v = res_id r \<and> score v = score r)"
      by blast
  qed
qed

lemma rounding_query:
  "query demo_chunker (score_engine rounding_hits) ''q'' 4 False None None 0 = Inr rounding_result"
  by code_simp

theorem direct_scores_rescaled_witness:
  "query demo_chunker (score_engine rounding_hits) ''q'' 4 False None None 0 = Inr rounding_result
   \<and> list_all2
       (\<lambda>r d. path d = fst (parse_chunk_id demo_chunker (res_id r))
             \<and> is_round4 (max 0 ((score r - 1/2) / (1 - 1/2))) (entry_score d)
             \<and> (\<exists>v\<in>set (dense_results (score_engine rounding_hits) ''q'' 4 0).
                   res_id v = res_id r \<and> score v = score r))
       (direct_hits demo_chunker (score_engine rounding_hits) ''q'' 4 None 0)
       (direct rounding_result)
   \<and> map score (direct_hits demo_chunker (score_engine rounding_hits) ''q'' 4 None 0) =
       [7/9, 20003/40000, 20001/40000, 2/5]
   \<and> map entry_score (direct rounding_result) = [1389/2500, 1/5000, 0, 0]"
proof -
  have hits: "map score (direct_hits demo_chunker (score_engine rounding_hits) ''q'' 4 None 0) =
       [7/9, 20003/40000, 20001/40000, 2/5]"
    by code_simp
  have scores: "map entry_score (direct rounding_result) = [1389/2500, 1/5000, 0, 0]"
    by (simp add: rounding_result_def entry_def)
  from direct_scores_rescaled [OF rounding_query] rounding_query hits scores
  show ?thesis by blast
qed






section \<open>Properties of the indexer\<close>

lemma stored_entry_None:
  "stored_entry ck c st file_id = None \<longleftrightarrow>
   get st file_id = None \<and> (\<not> chunking_enabled c \<or> get st (make_chunk_id ck file_id 0) = None)"
  by (auto simp: stored_entry_def split: option.splits)

lemma needs_reindex_spec:
  assumes "needs_reindex w ck c st file_id = Inr b"
  shows "b = spec_needs_reindex w ck c st False file_id"
proof (cases "stored_entry ck c st file_id")
  case None
  with assms have "b" by (simp add: needs_reindex_def)
  moreover from None have "spec_needs_reindex w ck c st False file_id"
    by (simp add: spec_needs_reindex_def stored_entry_None)
  ultimately show ?thesis by simp
next
  case (Some r)
  obtain v meta where r: "r = (v, meta)" by (cases r)
  from Some have not_none: "\<not> (get st file_id = None
      \<and> (\<not> chunking_enabled c \<or> get st (make_chunk_id ck file_id 0) = None))"
    using stored_entry_None [of ck c st file_id] by simp
  from assms Some r obtain m where m: "stat_mtime w file_id = Some m"
    by (auto simp: needs_reindex_def split: option.splits)
  show ?thesis
  proof (cases "float_eq m (meta ''mtime'')")
    case True
    with assms Some r m have "\<not> b" by (simp add: needs_reindex_def)
    moreover from True Some r m not_none have "\<not> spec_needs_reindex w ck c st False file_id"
      unfolding spec_needs_reindex_def by auto
    ultimately show ?thesis by simp
  next
    case False
    with assms Some r m obtain body where t: "read_text w file_id = Some body"
      and b: "b = (Some (MStr (hash_content w body)) \<noteq> meta ''content_hash'')"
      by (auto simp: needs_reindex_def split: option.splits)
    from False Some r m t not_none have
      "spec_needs_reindex w ck c st False file_id =
         (Some (MStr (hash_content w body)) \<noteq> meta ''content_hash'')"
      unfolding spec_needs_reindex_def by auto
    with b show ?thesis by simp
  qed
qed

lemma spec_needs_reindex_rebuild [simp]: "spec_needs_reindex w ck c st True file_id"
  by (simp add: spec_needs_reindex_def)

lemma select_files_spec:
  "select_files w ck c st rebuild fs acc k = Inr (to_index, skipped) \<Longrightarrow>
   to_index = acc @ filter (\<lambda>(file_id, file_type). spec_needs_reindex w ck c st rebuild file_id) fs
   \<and> skipped = k + int (length (filter
        (\<lambda>(file_id, file_type). \<not> spec_needs_reindex w ck c st rebuild file_id) fs))"
proof (induction fs arbitrary: acc k)
  case Nil
  then show ?case by simp
next
  case (Cons f fs)
  obtain file_id file_type where f: "f = (file_id, file_type)" by (cases f)
  show ?case
  proof (cases rebuild)
    case True
    with Cons.prems f have
      "select_files w ck c st rebuild fs (acc @ [(file_id, file_type)]) k = Inr (to_index, skipped)"
      by simp
    from Cons.IH [OF this] True f show ?thesis by simp
  next
    case False
    with Cons.prems f obtain b where b: "needs_reindex w ck c st file_id = Inr b"
      by (auto split: sum.splits)
    from needs_reindex_spec [OF b] False
    have sb: "spec_needs_reindex w ck c st rebuild file_id = b" by simp
    show ?thesis
    proof (cases b)
      case True
      with Cons.prems f False b have
        "select_files w ck c st rebuild fs (acc @ [(file_id, file_type)]) k = Inr (to_index, skipped)"
        by simp
      from Cons.IH [OF this] True sb f show ?thesis by simp
    next
      case nb: False
      with Cons.prems f False b have
        "select_files w ck c st rebuild fs acc (k + 1) = Inr (to_index, skipped)"
        by simp
      from Cons.IH [OF this] nb sb f show ?thesis by simp
    qed
  qed
qed

lemma index_InrD:
  assumes "index w ck c ix rebuild = Inr (summary, ix')"
  obtains to_index st2 embed_items st3 where
    "select_files w ck c (fst (pruned w ck c (store ix))) rebuild (current_files w c) [] 0
       = Inr (to_index, files_skipped summary)"
    and "files_total summary = int (length (current_files w c))"
    and "files_indexed summary = int (length to_index)"
    and "files_removed summary = snd (pruned w ck c (store ix))"
    and "prepare_items w ck c to_index (fst (pruned w ck c (store ix))) [] = (st2, embed_items)"
    and "embed_and_store w ck embed_items st2 = Inr (st3, chunks_indexed summary)"
    and "ix' = rebuild_and_save w ck c
           (rebuild \<or> 0 < files_indexed summary \<or> 0 < files_removed summary) (ix\<lparr>store := st3\<rparr>)"
  using assms
  by (auto simp: index_def Let_def split: prod.splits sum.splits)

text \<open>
  C1. In every pass of \<open>index\<close> that returns, the files selected for (re)indexing are exactly
  the current files for which \<open>rebuild\<close> is true, or the store (after the removal of vanished
  files) holds no entry under the path nor, with chunking enabled, under the chunk-0 id, or
  both the mtime and the content hash differ from the stored ones; \<open>files_indexed\<close> counts
  the selected files and \<open>files_skipped\<close> counts the others.
\<close>

theorem needs_reindex_selection:
  assumes "index w ck c ix rebuild = Inr (summary, ix')"
  shows "\<exists>to_index.
           select_files w ck c (fst (pruned w ck c (store ix))) rebuild (current_files w c) [] 0
             = Inr (to_index, files_skipped summary)
         \<and> (\<forall>f\<in>set (current_files w c).
               f \<in> set to_index \<longleftrightarrow>
               spec_needs_reindex w ck c (fst (pruned w ck c (store ix))) rebuild (fst f))
         \<and> files_indexed summary = int (length to_index)
         \<and> files_skipped summary =
             int (length (filter
               (\<lambda>f. \<not> spec_needs_reindex w ck c (fst (pruned w ck c (store ix))) rebuild (fst f))
               (current_files w c)))"
proof -
  from assms obtain to_index where
    sel: "select_files w ck c (fst (pruned w ck c (store ix))) rebuild (current_files w c) [] 0
       = Inr (to_index, files_skipped summary)"
    and n: "files_indexed summary = int (length to_index)"
    by (rule index_InrD)
  from select_files_spec [OF sel] have
    ti: "to_index = filter (\<lambda>f. spec_needs_reindex w ck c (fst (pruned w ck c (store ix))) rebuild (fst f))
           (current_files w c)"
    and sk: "files_skipped summary = int (length (filter
               (\<lambda>f. \<not> spec_needs_reindex w ck c (fst (pruned w ck c (store ix))) rebuild (fst f))
               (current_files w c)))"
    by (simp_all add: case_prod_unfold)
  from ti have "\<forall>f\<in>set (current_files w c).
               f \<in> set to_index \<longleftrightarrow>
               spec_needs_reindex w ck c (fst (pruned w ck c (store ix))) rebuild (fst f)"
    by auto
  with sel n sk show ?thesis by blast
qed

text \<open>
  C9. Every summary returned by \<open>index\<close> satisfies
  \<open>files_total = files_indexed + files_skipped\<close>: a scanned file is counted once, as selected
  or as skipped, whatever happens to it afterwards.
\<close>

theorem summary_total_partition:
  assumes "index w ck c ix rebuild = Inr (summary, ix')"
  shows "files_total summary = files_indexed summary + files_skipped summary"
proof -
  from assms obtain to_index where
    sel: "select_files w ck c (fst (pruned w ck c (store ix))) rebuild (current_files w c) [] 0
       = Inr (to_index, files_skipped summary)"
    and t: "files_total summary = int (length (current_files w c))"
    and n: "files_indexed summary = int (length to_index)"
    by (rule index_InrD)
  let ?P = "\<lambda>(file_id, file_type).
     spec_needs_reindex w ck c (fst (pruned w ck c (store ix))) rebuild file_id"
  from select_files_spec [OF sel] have
    "to_index = filter ?P (current_files w c)"
    "files_skipped summary = int (length (filter (\<lambda>f. \<not> ?P f) (current_files w c)))"
    by (simp_all add: case_prod_unfold)
  with t n sum_length_filter_compl [of ?P "current_files w c"] show ?thesis
    by simp
qed

lemma rebuild_and_save_trace:
  "trace (rebuild_and_save w ck c nr ix) = trace ix @ rebuild_effects c nr"
  by (simp add: rebuild_and_save_def rebuild_effects_def Let_def)

lemma rebuild_and_save_skip: "rebuild_and_save w ck c False ix = ix"
  by (simp add: rebuild_and_save_def)

lemma rebuild_and_save_disk:
  "disk_store (rebuild_and_save w ck c True ix) = store ix"
  "disk_graph (rebuild_and_save w ck c True ix) = graph (rebuild_and_save w ck c True ix)"
  "hybrid_enabled c \<Longrightarrow>
     disk_bm25 (rebuild_and_save w ck c True ix) = bm25 (rebuild_and_save w ck c True ix)"
  by (simp_all add: rebuild_and_save_def Let_def)

text \<open>
  C2, as amended. In every pass of \<open>index\<close> that returns, with \<open>needs_rebuild\<close> standing for
  "\<open>rebuild\<close> is true, or at least one file was indexed, or at least one entry was removed":
  the graph is rebuilt if and only if \<open>needs_rebuild\<close> holds, the BM25 index if and only if
  moreover hybrid search is enabled, and store and graph (and the BM25 index, if hybrid
  search is enabled) are saved if and only if \<open>needs_rebuild\<close> holds. When it does not hold,
  nothing is rebuilt or saved and the artifacts on disk are unchanged.
\<close>

theorem rebuild_and_save_gate:
  assumes "index w ck c ix rebuild = Inr (summary, ix')"
  shows "trace ix' = trace ix @
           rebuild_effects c (rebuild \<or> 0 < files_indexed summary \<or> 0 < files_removed summary)
       \<and> (\<not> (rebuild \<or> 0 < files_indexed summary \<or> 0 < files_removed summary) \<longrightarrow>
            graph ix' = graph ix \<and> bm25 ix' = bm25 ix
          \<and> disk_store ix' = disk_store ix \<and> disk_graph ix' = disk_graph ix
          \<and> disk_bm25 ix' = disk_bm25 ix)"
proof -
  from assms obtain st3 where
    ix': "ix' = rebuild_and_save w ck c
           (rebuild \<or> 0 < files_indexed summary \<or> 0 < files_removed summary) (ix\<lparr>store := st3\<rparr>)"
    by (rule index_InrD)
  have "trace ix' = trace ix @
           rebuild_effects c (rebuild \<or> 0 < files_indexed summary \<or> 0 < files_removed summary)"
    unfolding ix' by (simp add: rebuild_and_save_trace)
  moreover have "graph ix' = graph ix \<and> bm25 ix' = bm25 ix
          \<and> disk_store ix' = disk_store ix \<and> disk_graph ix' = disk_graph ix
          \<and> disk_bm25 ix' = disk_bm25 ix"
    if "\<not> (rebuild \<or> 0 < files_indexed summary \<or> 0 < files_removed summary)"
    using that unfolding ix' by (simp add: rebuild_and_save_skip)
  ultimately show ?thesis by blast
qed

lemma observe_InrD:
  "observe r = Inr (s, t, ids) \<Longrightarrow> \<exists>ix. r = Inr (s, ix) \<and> trace ix = t \<and> all_ids (store ix) = ids"
  by (auto simp: observe_def split: sum.splits)

lemma demo_index_run:
  "observe (index (demo_world demo_files) demo_chunker (demo_index_config False)
      (demo_indexer demo_store) False) =
   Inr (demo_summary, all_effects, [''same.md'', ''touched.md'', ''edited.md'', ''new.md''])"
  by code_simp

text \<open>
  C2 as stated fails for a forced rebuild over an empty corpus and an empty store: no file is
  indexed and no entry removed, and still graph and BM25 index are rebuilt and saved.
\<close>

theorem rebuild_and_save_gate_counterexample:
  "observe (index (demo_world Map.empty) demo_chunker (demo_index_config False)
      (demo_indexer []) True) = Inr (nothing_found, all_effects, [])
   \<and> files_indexed nothing_found = 0 \<and> files_removed nothing_found = 0
   \<and> GraphBuilt \<in> set all_effects \<and> StoreSaved \<in> set all_effects"
proof -
  have "observe (index (demo_world Map.empty) demo_chunker (demo_index_config False)
      (demo_indexer []) True) = Inr (nothing_found, all_effects, [])"
    by code_simp
  then show ?thesis by (simp add: nothing_found_def all_effects_def)
qed

text \<open>
  C3 does not hold of the code. With a single file that cannot be read (whole-file mode),
  and with a single empty file (chunked mode, where the chunker emits no chunk), the second
  of two passes over an unchanged file system selects the file again, reports
  \<open>files_indexed = 1\<close>, rebuilds graph and BM25 index and saves all three artifacts.
\<close>

theorem index_twice_not_idempotent:
  "observe (index_twice (demo_world bin_only) demo_chunker (demo_index_config False)
      (demo_indexer [])) = Inr (one_selected, all_effects, [])
   \<and> observe (index_twice (demo_world empty_only) demo_chunker (demo_index_config True)
      (demo_indexer [])) = Inr (one_selected, all_effects, [])
   \<and> files_indexed one_selected = 1 \<and> StoreSaved \<in> set all_effects"
proof -
  have "observe (index_twice (demo_world bin_only) demo_chunker (demo_index_config False)
      (demo_indexer [])) = Inr (one_selected, all_effects, [])"
    by code_simp
  moreover have "observe (index_twice (demo_world empty_only) demo_chunker (demo_index_config True)
      (demo_indexer [])) = Inr (one_selected, all_effects, [])"
    by code_simp
  ultimately show ?thesis by (simp add: one_selected_def all_effects_def)
qed

theorem rebuild_and_save_gate_witness:
  "observe (index (demo_world demo_files) demo_chunker (demo_index_config False)
      (demo_indexer demo_store) False) =
     Inr (demo_summary, all_effects, [''same.md'', ''touched.md'', ''edited.md'', ''new.md''])
   \<and> all_effects = trace (demo_indexer demo_store) @
        rebuild_effects (demo_index_config False)
          (False \<or> 0 < files_indexed demo_summary \<or> 0 < files_removed demo_summary)"
proof -
  from observe_InrD [OF demo_index_run] obtain ix' where
    run: "index (demo_world demo_files) demo_chunker (demo_index_config False)
      (demo_indexer demo_store) False = Inr (demo_summary, ix')"
    and tr: "trace ix' = all_effects"
    by blast
  from rebuild_and_save_gate [OF run] tr demo_index_run show ?thesis by simp
qed

theorem summary_total_partition_witness:
  "observe (index (demo_world demo_files) demo_chunker (demo_index_config False)
      (demo_indexer demo_store) False) =
     Inr (demo_summary, all_effects, [''same.md'', ''touched.md'', ''edited.md'', ''new.md''])
   \<and> files_total demo_summary = files_indexed demo_summary + files_skipped demo_summary
   \<and> files_total demo_summary = 5 \<and> files_indexed demo_summary = 3"
proof -
  from observe_InrD [OF demo_index_run] obtain ix' where
    run: "index (demo_world demo_files) demo_chunker (demo_index_config False)
      (demo_indexer demo_store) False = Inr (demo_summary, ix')"
    by blast
  from summary_total_partition [OF run] demo_index_run show ?thesis
    by (simp add: demo_summary_def)
qed

theorem needs_reindex_selection_witness:
  "observe (index (demo_world demo_files) demo_chunker (demo_index_config False)
      (demo_indexer demo_store) False) =
     Inr (demo_summary, all_effects, [''same.md'', ''touched.md'', ''edited.md'', ''new.md''])
   \<and> files_skipped demo_summary =
       int (length (filter
         (\<lambda>f. \<not> spec_needs_reindex (demo_world demo_files) demo_chunker (demo_index_config False)
                 (fst (pruned (demo_world demo_files) demo_chunker (demo_index_config False)
                    (store (demo_indexer demo_store)))) False (fst f))
         (current_files (demo_world demo_files) (demo_index_config False))))
   \<and> files_skipped demo_summary = 2"
proof -
  from observe_InrD [OF demo_index_run] obtain ix' where
    run: "index (demo_world demo_files) demo_chunker (demo_index_config False)
      (demo_indexer demo_store) False = Inr (demo_summary, ix')"
    by blast
  from needs_reindex_selection [OF run] demo_index_run show ?thesis
    by (auto simp: demo_summary_def)
qed

subsection \<open>Two passes over an unchanged file system\<close>

lemma get_upsert: "get (upsert i v m st) k = (if k = i then Some (v, m) else get st k)"
  by (simp add: get_def upsert_def update_conv')

lemma get_delete: "get (delete i st) k = (if k = i then None else get st k)"
  by (simp add: get_def delete_def delete_conv')

lemma get_None_iff: "get st k = None \<longleftrightarrow> k \<notin> set (all_ids st)"
  by (simp add: get_def all_ids_def map_of_eq_None_iff)

lemma delete_fold_get:
  "get (foldl (\<lambda>s i. if P i then delete i s else s) st ids) k =
     (if k \<in> set ids \<and> P k then None else get st k)"
  by (induction ids arbitrary: st) (auto simp: get_delete)

lemma delete_chunks_of_get:
  "get (delete_chunks_of ck f st) k =
     (if fst (parse_chunk_id ck k) = f then None else get st k)"
  unfolding delete_chunks_of_def delete_fold_get
  using get_None_iff [of st k] by auto

lemma remove_missing_get:
  "get (fst (remove_missing ck cur ids st n)) k =
     (if k \<in> set ids \<and> fst (parse_chunk_id ck k) \<notin> set cur then None else get st k)"
  by (induction ids arbitrary: st n) (auto simp: get_delete)

lemma remove_missing_noop:
  "\<forall>i\<in>set ids. fst (parse_chunk_id ck i) \<in> set cur \<Longrightarrow>
   remove_missing ck cur ids st n = (st, n)"
  by (induction ids arbitrary: st n) auto

lemma pruned_get:
  "get (fst (pruned w ck c st)) k =
     (if fst (parse_chunk_id ck k) \<notin> fst ` set (current_files w c) then None else get st k)"
  unfolding pruned_def remove_missing_get
  using get_None_iff [of st k] by auto

lemma pruned_noop:
  "\<forall>i\<in>set (all_ids st). fst (parse_chunk_id ck i) \<in> fst ` set (current_files w c) \<Longrightarrow>
   pruned w ck c st = (st, 0)"
  unfolding pruned_def by (rule remove_missing_noop) simp

lemma scan_source_files: "p \<in> set (scan_source w s) \<Longrightarrow> files w p \<noteq> None"
  by (auto simp: scan_source_def Let_def split: if_splits)

lemma foldl_update_keys:
  "fst ` set (foldl (\<lambda>af p. AList.update p t af) al ps) = fst ` set al \<union> set ps"
  by (induction ps arbitrary: al) (auto simp: dom_update)

lemma scan_sources_keys:
  "fst ` set (scan_sources w ss al) = fst ` set al \<union> (\<Union>s\<in>set ss. set (scan_source w s))"
  by (induction ss arbitrary: al) (auto simp: foldl_update_keys)

lemma foldl_update_distinct:
  "distinct (map fst al) \<Longrightarrow> distinct (map fst (foldl (\<lambda>af p. AList.update p t af) al ps))"
  by (induction ps arbitrary: al) (auto simp: distinct_update)

lemma scan_sources_distinct:
  "distinct (map fst al) \<Longrightarrow> distinct (map fst (scan_sources w ss al))"
  by (induction ss arbitrary: al) (auto simp: foldl_update_distinct)

lemma current_files_exist:
  "f \<in> fst ` set (current_files w c) \<Longrightarrow> files w f \<noteq> None"
  unfolding current_files_def scan_sources_keys
  using scan_source_files by fastforce

lemma current_files_distinct: "distinct (map fst (current_files w c))"
  unfolding current_files_def by (rule scan_sources_distinct) simp

lemma item_of_mono: "item_of w ck c fs it \<Longrightarrow> set fs \<subseteq> set gs \<Longrightarrow> item_of w ck c gs it"
  by (auto simp: item_of_def)

lemma prepare_items_items:
  "prepare_items w ck c fs st acc = (st2, items) \<Longrightarrow> it \<in> set items \<Longrightarrow>
   it \<in> set acc \<or> item_of w ck c fs it"
proof (induction fs arbitrary: st acc)
  case Nil
  then show ?case by simp
next
  case (Cons x fs)
  obtain f t where x: "x = (f, t)" by (cases x)
  show ?case
  proof (cases "read_text w f")
    case None
    with Cons.prems x have "prepare_items w ck c fs st acc = (st2, items)" by simp
    from Cons.IH [OF this Cons.prems(2)] show ?thesis
      by (auto intro: item_of_mono [where fs = fs])
  next
    case (Some body)
    define new where "new = (if chunking_enabled c then
         map (chunk_item ck f t body (int (length (chunk_text ck body (max_tokens c) (overlap_tokens c)))))
           (chunk_text ck body (max_tokens c) (overlap_tokens c))
       else [\<lparr>item_id = f, item_text = ''Path: '' @ f @ [newline, newline] @ body,
              item_path = f, item_type = t, item_start_line = None, item_end_line = None\<rparr>])"
    from Cons.prems(1) x Some obtain st' where
      "prepare_items w ck c fs st' (acc @ new) = (st2, items)"
      by (auto simp: new_def Let_def split: if_splits)
    from Cons.IH [OF this Cons.prems(2)] have
      "it \<in> set acc \<or> it \<in> set new \<or> item_of w ck c fs it" by auto
    moreover have "item_of w ck c (x # fs) it" if "it \<in> set new"
      using that Some x by (auto simp: new_def item_of_def chunk_item_def split: if_splits)
    ultimately show ?thesis
      by (auto intro: item_of_mono [where fs = fs])
  qed
qed

lemma prepare_items_acc:
  "prepare_items w ck c fs st acc = (st2, items) \<Longrightarrow> set acc \<subseteq> set items"
proof (induction fs arbitrary: st acc)
  case Nil
  then show ?case by simp
next
  case (Cons x fs)
  obtain f t where x: "x = (f, t)" by (cases x)
  show ?case
  proof (cases "read_text w f")
    case None
    with Cons.prems x have "prepare_items w ck c fs st acc = (st2, items)" by simp
    from Cons.IH [OF this] show ?thesis .
  next
    case (Some body)
    show ?thesis
    proof (cases "chunking_enabled c")
      case True
      with Cons.prems x Some have
        "prepare_items w ck c fs (delete_chunks_of ck f st)
           (acc @ map (chunk_item ck f t body
              (int (length (chunk_text ck body (max_tokens c) (overlap_tokens c)))))
              (chunk_text ck body (max_tokens c) (overlap_tokens c))) = (st2, items)"
        by (simp add: Let_def)
      from Cons.IH [OF this] show ?thesis by simp
    next
      case False
      with Cons.prems x Some have
        "prepare_items w ck c fs st
           (acc @ [\<lparr>item_id = f, item_text = ''Path: '' @ f @ [newline, newline] @ body,
              item_path = f, item_type = t, item_start_line = None, item_end_line = None\<rparr>])
         = (st2, items)"
        by simp
      from Cons.IH [OF this] show ?thesis by simp
    qed
  qed
qed

lemma prepare_items_cover:
  "prepare_items w ck c fs st acc = (st2, items) \<Longrightarrow> f \<in> fst ` set fs \<Longrightarrow>
   read_text w f = Some body \<Longrightarrow>
   (if chunking_enabled c
    then \<forall>ch\<in>set (chunk_text ck body (max_tokens c) (overlap_tokens c)).
           make_chunk_id ck f (chunk_index ch) \<in> item_id ` set items
    else f \<in> item_id ` set items)"
proof (induction fs arbitrary: st acc)
  case Nil
  then show ?case by simp
next
  case (Cons x fs)
  obtain g t where x: "x = (g, t)" by (cases x)
  show ?case
  proof (cases "g = f")
    case True
    define new where "new = (if chunking_enabled c then
         map (chunk_item ck f t body (int (length (chunk_text ck body (max_tokens c) (overlap_tokens c)))))
           (chunk_text ck body (max_tokens c) (overlap_tokens c))
       else [\<lparr>item_id = f, item_text = ''Path: '' @ f @ [newline, newline] @ body,
              item_path = f, item_type = t, item_start_line = None, item_end_line = None\<rparr>])"
    from Cons.prems(1,3) x True obtain st' where
      "prepare_items w ck c fs st' (acc @ new) = (st2, items)"
      by (auto simp: new_def Let_def split: if_splits)
    from prepare_items_acc [OF this] have sub: "set new \<subseteq> set items" by simp
    have "if chunking_enabled c
      then \<forall>ch\<in>set (chunk_text ck body (max_tokens c) (overlap_tokens c)).
             make_chunk_id ck f (chunk_index ch) \<in> item_id ` set new
      else f \<in> item_id ` set new"
      by (auto simp: new_def chunk_item_def image_iff)
    moreover from sub have "item_id ` set new \<subseteq> item_id ` set items" by auto
    ultimately show ?thesis by (auto split: if_splits)
  next
    case False
    with Cons.prems(2) x have f: "f \<in> fst ` set fs" by auto
    from Cons.prems(1) x obtain st' acc' where
      "prepare_items w ck c fs st' acc' = (st2, items)"
      by (auto simp: Let_def split: option.splits if_splits)
    from Cons.IH [OF this f Cons.prems(3)] show ?thesis .
  qed
qed

lemma prepare_items_get:
  "prepare_items w ck c fs st acc = (st2, items) \<Longrightarrow>
   get st2 k =
     (if chunking_enabled c \<and> fst (parse_chunk_id ck k) \<in> fst ` set fs
         \<and> read_text w (fst (parse_chunk_id ck k)) \<noteq> None
      then None else get st k)"
proof (induction fs arbitrary: st acc)
  case Nil
  then show ?case by simp
next
  case (Cons x fs)
  obtain f t where x: "x = (f, t)" by (cases x)
  show ?case
  proof (cases "read_text w f")
    case None
    with Cons.prems x have "prepare_items w ck c fs st acc = (st2, items)" by simp
    from Cons.IH [OF this] None x show ?thesis by auto
  next
    case (Some body)
    show ?thesis
    proof (cases "chunking_enabled c")
      case True
      with Cons.prems x Some obtain acc' where
        "prepare_items w ck c fs (delete_chunks_of ck f st) acc' = (st2, items)"
        by (auto simp: Let_def)
      from Cons.IH [OF this] True Some x show ?thesis
        by (auto simp: delete_chunks_of_get)
    next
      case False
      with Cons.prems x Some obtain acc' where
        "prepare_items w ck c fs st acc' = (st2, items)"
        by auto
      from Cons.IH [OF this] False show ?thesis by simp
    qed
  qed
qed

lemma file_meta_mtime: "file_meta w ck it body m ''mtime'' = Some (MNum m)"
  by (simp add: file_meta_def Let_def split: prod.splits option.splits)

lemma upsert_items_other:
  "k \<notin> item_id ` fst ` set zs \<Longrightarrow> get (fst (upsert_items w ck zs st n)) k = get st k"
  by (induction zs arbitrary: st n)
     (auto simp: get_upsert split: option.splits prod.splits)

lemma upsert_items_stored:
  assumes "\<forall>z\<in>set zs. read_text w (item_path (fst z)) \<noteq> None
             \<and> stat_mtime w (item_path (fst z)) \<noteq> None"
    and "k \<in> item_id ` fst ` set zs"
  shows "\<exists>it e meta m. (it, e) \<in> set zs \<and> item_id it = k
           \<and> stat_mtime w (item_path it) = Some m \<and> meta ''mtime'' = Some (MNum m)
           \<and> get (fst (upsert_items w ck zs st n)) k = Some (e, meta)"
  using assms
proof (induction zs arbitrary: st n)
  case Nil
  then show ?case by simp
next
  case (Cons z zs)
  obtain it0 e0 where z: "z = (it0, e0)" by (cases z)
  from Cons.prems(1) z obtain body m0 where
    rd: "read_text w (item_path it0) = Some body" and sm: "stat_mtime w (item_path it0) = Some m0"
    by auto
  have step: "upsert_items w ck (z # zs) st n =
      upsert_items w ck zs (upsert (item_id it0) e0 (file_meta w ck it0 body m0) st) (n + 1)"
    by (simp add: z rd sm)
  show ?case
  proof (cases "k \<in> item_id ` fst ` set zs")
    case True
    from Cons.prems(1) have "\<forall>z\<in>set zs. read_text w (item_path (fst z)) \<noteq> None
             \<and> stat_mtime w (item_path (fst z)) \<noteq> None" by simp
    from Cons.IH [OF this True, of "upsert (item_id it0) e0 (file_meta w ck it0 body m0) st" "n + 1"]
    show ?thesis unfolding step by auto
  next
    case False
    with Cons.prems(2) z have k: "k = item_id it0" by auto
    have "get (fst (upsert_items w ck (z # zs) st n)) k = Some (e0, file_meta w ck it0 body m0)"
      unfolding step
      using upsert_items_other [OF False, of w ck
          "upsert (item_id it0) e0 (file_meta w ck it0 body m0) st" "n + 1"]
      by (simp add: get_upsert k)
    with k sm z file_meta_mtime [of w ck it0 body m0] show ?thesis
      by (intro exI [of _ it0] exI [of _ e0] exI [of _ "file_meta w ck it0 body m0"] exI [of _ m0])
         simp
  qed
qed

lemma embed_and_store_InrD:
  assumes "embed_and_store w ck items st2 = Inr (st3, n)"
  shows "\<exists>zs. st3 = fst (upsert_items w ck zs st2 0) \<and> fst ` set zs = set items"
proof (cases "items = []")
  case True
  with assms have "st3 = fst (upsert_items w ck [] st2 0)"
    by (simp add: embed_and_store_def)
  with True show ?thesis by (intro exI [of _ "[]"]) simp
next
  case False
  with assms obtain embs where len: "length embs = length items"
    and st3: "st3 = fst (upsert_items w ck (zip items embs) st2 0)"
    by (auto simp: embed_and_store_def split: sum.splits if_splits)
  from len have "map fst (zip items embs) = items" by simp
  then have "fst ` set (zip items embs) = set items" by (metis set_map)
  with st3 show ?thesis by blast
qed

lemma needs_reindex_cong:
  "stored_entry ck c st f = stored_entry ck c st' f \<Longrightarrow>
   needs_reindex w ck c st f = needs_reindex w ck c st' f"
  by (simp add: needs_reindex_def)

lemma needs_reindex_fresh:
  "stored_entry ck c st f = Some (e, meta) \<Longrightarrow> stat_mtime w f = Some m \<Longrightarrow>
   meta ''mtime'' = Some (MNum m) \<Longrightarrow> needs_reindex w ck c st f = Inr False"
  by (simp add: needs_reindex_def)

lemma select_files_defined:
  "select_files w ck c st False fs acc k = Inr r \<Longrightarrow> f \<in> fst ` set fs \<Longrightarrow>
   \<exists>b. needs_reindex w ck c st f = Inr b"
proof (induction fs arbitrary: acc k)
  case Nil
  then show ?case by simp
next
  case (Cons x fs)
  obtain g t where x: "x = (g, t)" by (cases x)
  from Cons.prems(1) x obtain b where b: "needs_reindex w ck c st g = Inr b"
    by (auto split: sum.splits)
  from Cons.prems(1) x b obtain acc' k' where "select_files w ck c st False fs acc' k' = Inr r"
    by (cases b) auto
  from Cons.IH [OF this] Cons.prems(2) x b show ?case by auto
qed

lemma select_files_none:
  "\<forall>f\<in>fst ` set fs. needs_reindex w ck c st f = Inr False \<Longrightarrow>
   select_files w ck c st False fs acc k = Inr (acc, k + int (length fs))"
  by (induction fs arbitrary: acc k) auto

lemma rebuild_and_save_store [simp]: "store (rebuild_and_save w ck c nr ix) = store ix"
  by (simp add: rebuild_and_save_def Let_def)

text \<open>
  What does hold of two passes in a row: if the ids of the chunks that the chunker emits for
  the current files parse back to their parts, no current path is itself a chunk id, every
  current file can be read and, with chunking enabled, yields a chunk with index \<open>0\<close>, then the pass after a pass that returned selects and
  removes nothing and leaves the indexer, its trace and the artifacts on disk as they were.
\<close>

lemma index_idempotent_when_stored:
  assumes run: "index w ck c ix False = Inr (s1, ix1)"
    and parse_make: "\<And>f body ch. f \<in> fst ` set (current_files w c) \<Longrightarrow>
        read_text w f = Some body \<Longrightarrow>
        ch \<in> set (chunk_text ck body (max_tokens c) (overlap_tokens c)) \<Longrightarrow>
        parse_chunk_id ck (make_chunk_id ck f (chunk_index ch)) = (f, Some (chunk_index ch))"
    and parse_file: "\<And>f. f \<in> fst ` set (current_files w c) \<Longrightarrow> parse_chunk_id ck f = (f, None)"
    and readable: "\<And>f. f \<in> fst ` set (current_files w c) \<Longrightarrow> read_text w f \<noteq> None"
    and first_chunk: "\<And>f body. chunking_enabled c \<Longrightarrow> f \<in> fst ` set (current_files w c) \<Longrightarrow>
        read_text w f = Some body \<Longrightarrow>
        \<exists>ch\<in>set (chunk_text ck body (max_tokens c) (overlap_tokens c)). chunk_index ch = 0"
  shows "index w ck c ix1 False =
           Inr (\<lparr>files_total = files_total s1, files_indexed = 0,
                 files_skipped = files_total s1, files_removed = 0, chunks_indexed = 0\<rparr>, ix1)"
proof -
  define cur where "cur = current_files w c"
  define st1 where "st1 = fst (pruned w ck c (store ix))"
  let ?parent = "\<lambda>k. fst (parse_chunk_id ck k)"
  let ?spec = "\<lambda>f. spec_needs_reindex w ck c st1 False f"
  from run obtain ti st2 items st3 where
    sel: "select_files w ck c st1 False cur [] 0 = Inr (ti, files_skipped s1)"
    and total: "files_total s1 = int (length cur)"
    and prep: "prepare_items w ck c ti st1 [] = (st2, items)"
    and es: "embed_and_store w ck items st2 = Inr (st3, chunks_indexed s1)"
    and ix1: "ix1 = rebuild_and_save w ck c
           (False \<or> 0 < files_indexed s1 \<or> 0 < files_removed s1) (ix\<lparr>store := st3\<rparr>)"
    unfolding cur_def st1_def by (rule index_InrD)
  have store1: "store ix1 = st3" unfolding ix1 by simp
  from select_files_spec [OF sel] have ti: "ti = filter (\<lambda>x. ?spec (fst x)) cur"
    by (simp add: case_prod_unfold)
  have ti_keys: "f \<in> fst ` set ti \<longleftrightarrow> f \<in> fst ` set cur \<and> ?spec f" for f
    unfolding ti by auto
  from embed_and_store_InrD [OF es] obtain zs where
    st3: "st3 = fst (upsert_items w ck zs st2 0)" and zs: "fst ` set zs = set items"
    by blast
  have item: "item_of w ck c ti it" if "it \<in> set items" for it
    using prepare_items_items [OF prep that] by simp
  have item_parent: "?parent (item_id it) = item_path it" if "it \<in> set items" for it
  proof -
    from item [OF that] have p: "item_path it \<in> fst ` set cur"
      by (auto simp: item_of_def ti_keys)
    show ?thesis
    proof (cases "chunking_enabled c")
      case True
      with item [OF that] obtain body ch where
        "read_text w (item_path it) = Some body"
        "ch \<in> set (chunk_text ck body (max_tokens c) (overlap_tokens c))"
        "item_id it = make_chunk_id ck (item_path it) (chunk_index ch)"
        by (auto simp: item_of_def)
      with parse_make [OF p [unfolded cur_def]] show ?thesis by simp
    next
      case False
      with item [OF that] parse_file [unfolded cur_def [symmetric], OF p] show ?thesis
        by (simp add: item_of_def)
    qed
  qed
  have zero_id: "parse_chunk_id ck (make_chunk_id ck f 0) = (f, Some 0)"
    if "chunking_enabled c" "f \<in> fst ` set cur" for f
  proof -
    from readable [unfolded cur_def [symmetric], OF that(2)] obtain body where
      body: "read_text w f = Some body" by auto
    from first_chunk [OF that(1) that(2) [unfolded cur_def] body] obtain ch where
      ch: "ch \<in> set (chunk_text ck body (max_tokens c) (overlap_tokens c))" "chunk_index ch = 0"
      by blast
    from parse_make [OF that(2) [unfolded cur_def] body ch(1)] ch(2) show ?thesis by simp
  qed
  have cur_stat: "stat_mtime w f \<noteq> None" if "f \<in> fst ` set cur" for f
    using current_files_exist [of f w c] that by (simp add: stat_mtime_def cur_def)
  have zs_ok: "\<forall>z\<in>set zs. read_text w (item_path (fst z)) \<noteq> None
             \<and> stat_mtime w (item_path (fst z)) \<noteq> None"
  proof
    fix z assume "z \<in> set zs"
    with zs have "fst z \<in> set items" by auto
    from item [OF this] show "read_text w (item_path (fst z)) \<noteq> None
             \<and> stat_mtime w (item_path (fst z)) \<noteq> None"
      using cur_stat by (auto simp: item_of_def ti_keys)
  qed
  have ids: "item_id ` fst ` set zs = item_id ` set items" using zs by simp
  have K1: "\<exists>e meta m. get st3 k = Some (e, meta) \<and> meta ''mtime'' = Some (MNum m)
              \<and> stat_mtime w (?parent k) = Some m"
    if "k \<in> item_id ` set items" for k
  proof -
    from that ids have "k \<in> item_id ` fst ` set zs" by simp
    from upsert_items_stored [OF zs_ok this, of ck st2 0] obtain it e meta m where
      "(it, e) \<in> set zs" "item_id it = k" "stat_mtime w (item_path it) = Some m"
      "meta ''mtime'' = Some (MNum m)" "get st3 k = Some (e, meta)"
      unfolding st3 by blast
    moreover from this zs have "it \<in> set items" by force
    ultimately show ?thesis using item_parent by auto
  qed
  have K2: "get st3 k = get st2 k" if "k \<notin> item_id ` set items" for k
    unfolding st3 using upsert_items_other [of k zs w ck st2 0] that ids by simp
  have K3: "get st2 k = (if chunking_enabled c \<and> ?parent k \<in> fst ` set ti then None else get st1 k)"
    for k
    using prepare_items_get [OF prep, of k] readable [unfolded cur_def [symmetric]]
    by (auto simp: ti_keys)
  have K4: "?parent k \<in> fst ` set cur" if "get st1 k \<noteq> None" for k
    using that pruned_get [of w ck c "store ix" k] by (auto simp: st1_def cur_def split: if_splits)
  have item_ids_parent: "?parent k \<in> fst ` set ti" if "k \<in> item_id ` set items" for k
  proof -
    from that obtain it where it: "it \<in> set items" "item_id it = k" by auto
    from item [OF it(1)] item_parent [OF it(1)] it(2) show ?thesis
      by (auto simp: item_of_def)
  qed
  have F1: "\<forall>i\<in>set (all_ids st3). ?parent i \<in> fst ` set (current_files w c)"
  proof
    fix i assume "i \<in> set (all_ids st3)"
    then have present: "get st3 i \<noteq> None" by (simp add: get_None_iff)
    show "?parent i \<in> fst ` set (current_files w c)"
    proof (cases "i \<in> item_id ` set items")
      case True
      from item_ids_parent [OF this] show ?thesis by (simp add: ti_keys cur_def)
    next
      case False
      with present K2 K3 [of i] have "get st1 i \<noteq> None" by (auto split: if_splits)
      from K4 [OF this] show ?thesis by (simp add: cur_def)
    qed
  qed
  have F2: "needs_reindex w ck c st3 f = Inr False" if f: "f \<in> fst ` set cur" for f
  proof (cases "?spec f")
    case True
    with f have f_ti: "f \<in> fst ` set ti" by (simp add: ti_keys)
    from readable [unfolded cur_def [symmetric], OF f] obtain body where
      body: "read_text w f = Some body" by auto
    from cur_stat [OF f] obtain m where m: "stat_mtime w f = Some m" by auto
    have pf: "?parent f = f" using parse_file [unfolded cur_def [symmetric], OF f] by simp
    show ?thesis
    proof (cases "chunking_enabled c")
      case False
      with prepare_items_cover [OF prep f_ti body] have "f \<in> item_id ` set items" by simp
      from K1 [OF this] pf m obtain e meta where
        "get st3 f = Some (e, meta)" "meta ''mtime'' = Some (MNum m)" by auto
      then show ?thesis
        using m by (intro needs_reindex_fresh [of ck c st3 f e meta]) (simp_all add: stored_entry_def)
    next
      case chunking: True
      have "f \<notin> item_id ` set items"
      proof
        assume "f \<in> item_id ` set items"
        then obtain it where it: "it \<in> set items" "item_id it = f" by auto
        from item_parent [OF it(1)] it(2) pf have path: "item_path it = f" by simp
        from item [OF it(1)] chunking it(2) path obtain body' ch where
          "read_text w f = Some body'"
          "ch \<in> set (chunk_text ck body' (max_tokens c) (overlap_tokens c))"
          "f = make_chunk_id ck f (chunk_index ch)"
          by (auto simp: item_of_def)
        with parse_make [OF f [unfolded cur_def], of body' ch]
          parse_file [unfolded cur_def [symmetric], OF f]
        show False by simp
      qed
      from K2 [OF this] K3 [of f] chunking pf f_ti have none: "get st3 f = None" by simp
      from first_chunk [OF chunking f [unfolded cur_def] body]
        prepare_items_cover [OF prep f_ti body] chunking
      have "make_chunk_id ck f 0 \<in> item_id ` set items" by auto
      from K1 [OF this] zero_id [OF chunking f] m obtain e meta where
        "get st3 (make_chunk_id ck f 0) = Some (e, meta)" "meta ''mtime'' = Some (MNum m)"
        by auto
      with none chunking have "stored_entry ck c st3 f = Some (e, meta)"
        by (simp add: stored_entry_def)
      with \<open>meta ''mtime'' = Some (MNum m)\<close> m show ?thesis
        by (intro needs_reindex_fresh [of ck c st3 f e meta]) simp_all
    qed
  next
    case False
    from select_files_defined [OF sel f] obtain b where
      b: "needs_reindex w ck c st1 f = Inr b" by blast
    from needs_reindex_spec [OF b] False have old: "needs_reindex w ck c st1 f = Inr False"
      using b by simp
    have keep: "get st3 k = get st1 k" if "?parent k = f" for k
    proof -
      have "k \<notin> item_id ` set items"
        using item_ids_parent [of k] that False by (auto simp: ti_keys)
      from K2 [OF this] K3 [of k] that False show ?thesis by (simp add: ti_keys)
    qed
    have "?parent f = f" using parse_file [unfolded cur_def [symmetric], OF f] by simp
    from keep [OF this] have a: "get st3 f = get st1 f" .
    have "stored_entry ck c st3 f = stored_entry ck c st1 f"
    proof (cases "chunking_enabled c")
      case True
      from keep [of "make_chunk_id ck f 0"] zero_id [OF True f]
      have b: "get st3 (make_chunk_id ck f 0) = get st1 (make_chunk_id ck f 0)" by simp
      show ?thesis unfolding stored_entry_def a b ..
    next
      case False
      then show ?thesis by (simp add: stored_entry_def a)
    qed
    from needs_reindex_cong [OF this, of w] old show ?thesis by simp
  qed
  have p2: "pruned w ck c st3 = (st3, 0)" by (rule pruned_noop [OF F1])
  have s2: "select_files w ck c st3 False cur [] 0 = Inr ([], int (length cur))"
    using select_files_none [of cur w ck c st3 "[]" 0] F2 by simp
  have "rebuild_and_save w ck c False (ix1\<lparr>store := st3\<rparr>) = ix1"
    using store1 by (simp add: rebuild_and_save_def)
  then show ?thesis
    using p2 s2 total
    by (simp add: index_def store1 cur_def [symmetric] embed_and_store_def)
qed

text \<open>
  The conditions are met by the single readable file in chunked mode: the first pass stores
  its chunk, and the pass after it skips the file and returns the indexer it was given.
\<close>

lemma index_idempotent_demo:
  "index (demo_world readable_only) demo_chunker (demo_index_config True)
     (snd (projr (index (demo_world readable_only) demo_chunker (demo_index_config True)
        (demo_indexer []) False))) False =
   Inr (one_skipped,
        snd (projr (index (demo_world readable_only) demo_chunker (demo_index_config True)
          (demo_indexer []) False)))"
proof -
  let ?w = "demo_world readable_only"
  let ?c = "demo_index_config True"
  have "observe (index ?w demo_chunker ?c (demo_indexer []) False) =
      Inr (one_stored, all_effects, [''new.md#chunk_0''])"
    by code_simp
  from observe_InrD [OF this] obtain ix1 where
    run: "index ?w demo_chunker ?c (demo_indexer []) False = Inr (one_stored, ix1)"
    by blast
  have cur: "fst ` set (current_files ?w ?c) = {''new.md''}"
  proof -
    have "current_files ?w ?c = [(''new.md'', Some ''docs'')]" by code_simp
    then show ?thesis by simp
  qed
  have rd: "read_text ?w ''new.md'' = Some ''hi''"
    by (simp add: read_text_def demo_world_def readable_only_def)
  have chunks: "chunk_text demo_chunker ''hi'' (max_tokens ?c) (overlap_tokens ?c) =
      [\<lparr>chunk_index = 0, chunk_body = ''hi'', start_char = 0, end_char = 2\<rparr>]"
    by (simp add: demo_chunker_def)
  have pm: "parse_chunk_id demo_chunker (make_chunk_id demo_chunker ''new.md'' 0) = (''new.md'', Some 0)"
    by code_simp
  have pf: "parse_chunk_id demo_chunker ''new.md'' = (''new.md'', None)"
    by code_simp
  have h1: "parse_chunk_id demo_chunker (make_chunk_id demo_chunker f (chunk_index ch)) =
        (f, Some (chunk_index ch))"
    if "f \<in> fst ` set (current_files ?w ?c)" "read_text ?w f = Some body"
      "ch \<in> set (chunk_text demo_chunker body (max_tokens ?c) (overlap_tokens ?c))"
    for f body ch
    using that cur rd chunks pm by auto
  have h2: "parse_chunk_id demo_chunker f = (f, None)"
    if "f \<in> fst ` set (current_files ?w ?c)" for f
    using that cur pf by auto
  have h3: "read_text ?w f \<noteq> None" if "f \<in> fst ` set (current_files ?w ?c)" for f
    using that cur rd by auto
  have h4: "\<exists>ch\<in>set (chunk_text demo_chunker body (max_tokens ?c) (overlap_tokens ?c)).
        chunk_index ch = 0"
    if "chunking_enabled ?c" "f \<in> fst ` set (current_files ?w ?c)" "read_text ?w f = Some body"
    for f body
    using that cur rd chunks by auto
  from index_idempotent_when_stored [OF run h1 h2 h3 h4]
  have "index ?w demo_chunker ?c ix1 False = Inr (one_skipped, ix1)"
    by (simp add: one_stored_def one_skipped_def)
  with run show ?thesis by simp
qed

end
